theory Spec2Isabelle
  imports Main "HOL-Library.Word" "HOL-Library.AList"
begin

section \<open>Signal classifier (package nvml, XID tables)\<close>

type_synonym uint64 = "64 word"

text \<open>
  A Go \<open>map[uint64]bool\<close> literal is kept as the association list of its entries, in
  source order. Indexing a Go map with a missing key yields the zero value, \<open>false\<close>.
\<close>

definition lookupBool :: "(uint64 \<times> bool) list \<Rightarrow> uint64 \<Rightarrow> bool" where
  "lookupBool m k = (case map_of m k of None \<Rightarrow> False | Some b \<Rightarrow> b)"

definition defaultIgnoredXids :: "(uint64 \<times> bool) list" where
  "defaultIgnoredXids =
     [(13, True), (31, True), (43, True), (45, True), (68, True), (109, True)]"

definition criticalXids :: "(uint64 \<times> bool) list" where
  "criticalXids =
     [(48, True), (63, True), (64, True), (74, True), (79, True),
      (94, True), (95, True), (119, True), (120, True)]"

definition XidDescriptions :: "(uint64 \<times> string) list" where
  "XidDescriptions =
     [(13, ''Graphics Engine Exception''),
      (31, ''GPU memory page fault''),
      (43, ''GPU stopped processing''),
      (45, ''Preemptive cleanup''),
      (68, ''Video processor exception''),
      (109, ''Context Switch Timeout''),
      (48, ''Double Bit ECC Error''),
      (63, ''Row remapping failure''),
      (64, ''Uncontained ECC error''),
      (74, ''NVLink error''),
      (79, ''GPU has fallen off the bus''),
      (94, ''Contained ECC error''),
      (95, ''Uncontained ECC error''),
      (8, ''GPU not accessible''),
      (32, ''Invalid or corrupted push buffer stream''),
      (38, ''Driver firmware error''),
      (56, ''Display engine error''),
      (57, ''Error programming video memory interface''),
      (62, ''Internal micro-controller halt (non-fatal)''),
      (69, ''Graphics engine accessor error''),
      (119, ''GSP error''),
      (120, ''GSP firmware error'')]"

definition IsDefaultIgnored :: "uint64 \<Rightarrow> bool" where
  "IsDefaultIgnored xid = lookupBool defaultIgnoredXids xid"

definition IsCritical :: "uint64 \<Rightarrow> bool" where
  "IsCritical xid = lookupBool criticalXids xid"

text \<open>The loop of \<open>isIgnoredXid\<close> over the additional list, returning at the first match.\<close>

fun inAdditional :: "uint64 \<Rightarrow> uint64 list \<Rightarrow> bool" where
  "inAdditional xid [] = False"
| "inAdditional xid (ignoredXid # rest) =
     (if xid = ignoredXid then True else inAdditional xid rest)"

definition isIgnoredXid :: "uint64 \<Rightarrow> uint64 list \<Rightarrow> bool" where
  "isIgnoredXid xid additionalIgnored =
     (if lookupBool defaultIgnoredXids xid then True
      else inAdditional xid additionalIgnored)"

definition xidToString :: "uint64 \<Rightarrow> string" where
  "xidToString xid =
     (case map_of XidDescriptions xid of
        Some desc \<Rightarrow> desc
      | None \<Rightarrow> ''Unknown XID'')"

datatype XidSeverity =
  XidSeverityUnknown | XidSeverityIgnored | XidSeverityWarning | XidSeverityCritical

definition GetXidSeverity :: "uint64 \<Rightarrow> XidSeverity" where
  "GetXidSeverity xid =
     (if lookupBool defaultIgnoredXids xid then XidSeverityIgnored
      else if lookupBool criticalXids xid then XidSeverityCritical
      else XidSeverityWarning)"

fun severityString :: "XidSeverity \<Rightarrow> string" where
  "severityString XidSeverityUnknown = ''unknown''"
| "severityString XidSeverityIgnored = ''ignored''"
| "severityString XidSeverityWarning = ''warning''"
| "severityString XidSeverityCritical = ''critical''"

section \<open>The ignored-codes parser\<close>

text \<open>
  \<open>ParseIgnoredXids\<close> rests on two functions of the Go standard library,
  \<open>strconv.ParseUint\<close> (called with base 10 and bit size 64) and \<open>strings.FieldsFunc\<close>.
  A Go string is a sequence of bytes, here a \<open>char list\<close>.

  \<open>ParseUint\<close> rejects the empty string, then accumulates the digits in a 64-bit word.
  With base 10 every byte outside \<open>0\<close>..\<open>9\<close> ends in the syntax error (a letter yields
  a digit value of at least 10, the base; an underscore is accepted for base 0
  only). Before multiplying it compares with \<open>cutoff\<close>, the least number whose tenfold
  exceeds the largest 64-bit value, and after adding the digit it tests for wrap-around
  and against \<open>maxVal\<close>, which for bit size 64 is \<open>maxUint64\<close> again.
\<close>

datatype NumError = ErrSyntax | ErrRange

definition isDigit :: "char \<Rightarrow> bool" where
  "isDigit c = (48 \<le> (of_char c :: nat) \<and> (of_char c :: nat) \<le> 57)"

definition digitVal :: "char \<Rightarrow> nat" where
  "digitVal c = (of_char c :: nat) - 48"

definition maxUint64 :: uint64 where
  "maxUint64 = 18446744073709551615"

definition cutoff :: uint64 where
  "cutoff = maxUint64 div 10 + 1"

fun parseUintLoop :: "string \<Rightarrow> uint64 \<Rightarrow> NumError + uint64" where
  "parseUintLoop [] n = Inr n"
| "parseUintLoop (c # cs) n =
     (if isDigit c then
        (if n \<ge> cutoff then Inl ErrRange
         else
           (let n10 = n * 10; n1 = n10 + of_nat (digitVal c)
            in if n1 < n10 \<or> n1 > maxUint64 then Inl ErrRange else parseUintLoop cs n1))
      else Inl ErrSyntax)"

definition ParseUint :: "string \<Rightarrow> NumError + uint64" where
  "ParseUint s = (if s = [] then Inl ErrSyntax else parseUintLoop s 0)"

text \<open>
  \<open>FieldsFunc\<close> scans the string once. \<open>cur\<close> is the field being read (Go keeps its
  start index; \<open>None\<close> is the negative start) and \<open>spans\<close> the fields closed so far. The
  scan is over runes, but the separator test of \<open>ParseIgnoredXids\<close> holds for the two
  ASCII runes comma and space only, which UTF-8 encodes as the single bytes \<open>0x2C\<close> and
  \<open>0x20\<close> and which occur in no multi-byte sequence: the fields are the same byte by byte.
\<close>

fun fieldsLoop ::
  "(char \<Rightarrow> bool) \<Rightarrow> string \<Rightarrow> string option \<Rightarrow> string list \<Rightarrow> string list" where
  "fieldsLoop f [] cur spans = (case cur of None \<Rightarrow> spans | Some t \<Rightarrow> spans @ [t])"
| "fieldsLoop f (r # rest) cur spans =
     (if f r then
        (case cur of
           Some t \<Rightarrow> fieldsLoop f rest None (spans @ [t])
         | None \<Rightarrow> fieldsLoop f rest None spans)
      else
        (case cur of
           None \<Rightarrow> fieldsLoop f rest (Some [r]) spans
         | Some t \<Rightarrow> fieldsLoop f rest (Some (t @ [r])) spans))"

definition FieldsFunc :: "string \<Rightarrow> (char \<Rightarrow> bool) \<Rightarrow> string list" where
  "FieldsFunc s f = fieldsLoop f s None []"

definition isSeparator :: "char \<Rightarrow> bool" where
  "isSeparator r = (r = CHR '','' \<or> r = CHR '' '')"

text \<open>The loop over the tokens: a token that fails to parse is skipped.\<close>

fun parseTokens :: "string list \<Rightarrow> uint64 list \<Rightarrow> uint64 list" where
  "parseTokens [] result = result"
| "parseTokens (tok # toks) result =
     (case ParseUint tok of
        Inl err \<Rightarrow> parseTokens toks result
      | Inr v \<Rightarrow> parseTokens toks (result @ [v]))"

text \<open>A Go slice result is \<open>None\<close> for \<open>nil\<close> and \<open>Some\<close> of its elements otherwise.\<close>

definition ParseIgnoredXids :: "string \<Rightarrow> uint64 list option" where
  "ParseIgnoredXids input =
     (if input = [] then None
      else
        (let tokens = FieldsFunc input isSeparator;
             result = parseTokens tokens []
         in if length result = 0 then None else Some result))"

subsection \<open>What the parser is specified to do\<close>

text \<open>
  The specification of the parser, written independently of the loops above: the input
  is cut at every separator, the empty pieces are dropped, and a token parses as an
  unsigned integer when it is a non-empty string of decimal digits whose value fits in
  64 bits.
\<close>

fun splitOn :: "(char \<Rightarrow> bool) \<Rightarrow> string \<Rightarrow> string list" where
  "splitOn f [] = [[]]"
| "splitOn f (c # cs) =
     (if f c then [] # splitOn f cs
      else (case splitOn f cs of t # ts \<Rightarrow> (c # t) # ts | [] \<Rightarrow> [[c]]))"

definition tokensOf :: "string \<Rightarrow> string list" where
  "tokensOf s = filter (\<lambda>t. t \<noteq> []) (splitOn isSeparator s)"

fun decimalFrom :: "nat \<Rightarrow> string \<Rightarrow> nat" where
  "decimalFrom m [] = m"
| "decimalFrom m (c # cs) = decimalFrom (m * 10 + digitVal c) cs"

definition decimal :: "string \<Rightarrow> nat" where
  "decimal s = decimalFrom 0 s"

definition parsesAsUint :: "string \<Rightarrow> bool" where
  "parsesAsUint t = (t \<noteq> [] \<and> list_all isDigit t \<and> decimal t < 2 ^ 64)"

definition tokenValue :: "string \<Rightarrow> uint64" where
  "tokenValue t = of_nat (decimal t)"

definition sliceOf :: "'a list \<Rightarrow> 'a list option" where
  "sliceOf xs = (if xs = [] then None else Some xs)"

section \<open>Gang discovery (package gang)\<close>

text \<open>
  \<open>DiscoverPeers\<close> returns a pair \<open>(*GangInfo, error)\<close>: a pointer that may be \<open>nil\<close> and an
  error that may be \<open>nil\<close>, each an \<open>option\<close> here. A \<open>GangDiscoverer\<close> is an interface; a
  value of it is the record of its four methods. The methods of the discoverers of this
  package read the pod and query the cluster through their client, so \<open>CanHandle\<close> and
  \<open>ExtractGangID\<close> are functions of the pod, and \<open>DiscoverPeers\<close> of the context and the pod.
\<close>

record PeerInfo =
  PodName :: string
  PodIP :: string
  NodeName :: string
  Namespace :: string

record GangInfo =
  GangID :: string
  ExpectedMinCount :: int
  Peers :: "PeerInfo list"

type_synonym DiscoverResult = "GangInfo option \<times> string option"

record ('pod, 'ctx) GangDiscoverer =
  Name :: string
  CanHandle :: "'pod \<Rightarrow> bool"
  ExtractGangID :: "'pod \<Rightarrow> string"
  DiscoverPeers :: "'ctx \<Rightarrow> 'pod \<Rightarrow> DiscoverResult"

text \<open>The composite holds its members in construction order and tries them in that order.\<close>

record ('pod, 'ctx) CompositeGangDiscoverer =
  discoverers :: "('pod, 'ctx) GangDiscoverer list"

definition NewCompositeGangDiscoverer ::
  "('pod, 'ctx) GangDiscoverer list \<Rightarrow> ('pod, 'ctx) CompositeGangDiscoverer" where
  "NewCompositeGangDiscoverer ds = \<lparr>discoverers = ds\<rparr>"

fun canHandleLoop :: "('pod, 'ctx) GangDiscoverer list \<Rightarrow> 'pod \<Rightarrow> bool" where
  "canHandleLoop [] pod = False"
| "canHandleLoop (d # ds) pod = (if CanHandle d pod then True else canHandleLoop ds pod)"

definition Composite_CanHandle :: "('pod, 'ctx) CompositeGangDiscoverer \<Rightarrow> 'pod \<Rightarrow> bool" where
  "Composite_CanHandle c pod = canHandleLoop (discoverers c) pod"

fun extractGangIDLoop :: "('pod, 'ctx) GangDiscoverer list \<Rightarrow> 'pod \<Rightarrow> string" where
  "extractGangIDLoop [] pod = ''''"
| "extractGangIDLoop (d # ds) pod =
     (if CanHandle d pod then
        (if ExtractGangID d pod \<noteq> '''' then ExtractGangID d pod
         else extractGangIDLoop ds pod)
      else extractGangIDLoop ds pod)"

definition Composite_ExtractGangID :: "('pod, 'ctx) CompositeGangDiscoverer \<Rightarrow> 'pod \<Rightarrow> string" where
  "Composite_ExtractGangID c pod = extractGangIDLoop (discoverers c) pod"

fun discoverPeersLoop ::
  "('pod, 'ctx) GangDiscoverer list \<Rightarrow> 'ctx \<Rightarrow> 'pod \<Rightarrow> DiscoverResult" where
  "discoverPeersLoop [] ctx pod = (None, None)"
| "discoverPeersLoop (d # ds) ctx pod =
     (if CanHandle d pod then DiscoverPeers d ctx pod else discoverPeersLoop ds ctx pod)"

definition Composite_DiscoverPeers ::
  "('pod, 'ctx) CompositeGangDiscoverer \<Rightarrow> 'ctx \<Rightarrow> 'pod \<Rightarrow> DiscoverResult" where
  "Composite_DiscoverPeers c ctx pod = discoverPeersLoop (discoverers c) ctx pod"

text \<open>
  The Kueue discoverer, as one concrete member. Of a pod it reads the name, the namespace,
  the labels (a map that may be \<open>nil\<close>), the phase, the IP and the node. Its client lists the
  pods of a namespace that match a label selector, or fails with a message.
\<close>

datatype PodPhase = PodPending | PodRunning | PodSucceeded | PodFailed | PodUnknown

record Pod =
  Pod_Name :: string
  Pod_Namespace :: string
  Pod_Labels :: "(string \<rightharpoonup> string) option"
  Status_Phase :: PodPhase
  Status_PodIP :: string
  Spec_NodeName :: string

definition KueueWorkloadNameLabel :: string where
  "KueueWorkloadNameLabel = ''kueue.x-k8s.io/workload-name''"

definition labelOf :: "Pod \<Rightarrow> string \<Rightarrow> string" where
  "labelOf pod k =
     (case Pod_Labels pod of None \<Rightarrow> '''' | Some m \<Rightarrow> (case m k of None \<Rightarrow> '''' | Some v \<Rightarrow> v))"

definition Kueue_CanHandle :: "Pod \<Rightarrow> bool" where
  "Kueue_CanHandle pod =
     (case Pod_Labels pod of
        None \<Rightarrow> False
      | Some m \<Rightarrow> (case m KueueWorkloadNameLabel of None \<Rightarrow> False | Some v \<Rightarrow> True))"

definition Kueue_ExtractGangID :: "Pod \<Rightarrow> string" where
  "Kueue_ExtractGangID pod =
     (case Pod_Labels pod of
        None \<Rightarrow> ''''
      | Some m \<Rightarrow>
          (let workloadName = labelOf pod KueueWorkloadNameLabel
           in if workloadName = '''' then ''''
              else ''kueue-'' @ Pod_Namespace pod @ ''-'' @ workloadName))"

fun collectPeers :: "Pod list \<Rightarrow> PeerInfo list \<Rightarrow> PeerInfo list" where
  "collectPeers [] peers = peers"
| "collectPeers (p # items) peers =
     (if Status_Phase p \<noteq> PodRunning \<and> Status_Phase p \<noteq> PodPending
      then collectPeers items peers
      else collectPeers items
             (peers @ [\<lparr>PodName = Pod_Name p, PodIP = Status_PodIP p,
                         NodeName = Spec_NodeName p, Namespace = Pod_Namespace p\<rparr>]))"

type_synonym 'ctx PodLister = "'ctx \<Rightarrow> string \<Rightarrow> string \<Rightarrow> string + Pod list"

definition Kueue_DiscoverPeers :: "'ctx PodLister \<Rightarrow> 'ctx \<Rightarrow> Pod \<Rightarrow> DiscoverResult" where
  "Kueue_DiscoverPeers kubeClient ctx pod =
     (if \<not> Kueue_CanHandle pod then (None, None)
      else
        (let workloadName = labelOf pod KueueWorkloadNameLabel;
             gangID = Kueue_ExtractGangID pod;
             labelSelector = KueueWorkloadNameLabel @ ''='' @ workloadName
         in case kubeClient ctx (Pod_Namespace pod) labelSelector of
              Inl err \<Rightarrow>
                (None, Some (''failed to list pods with selector '' @ labelSelector @ '': '' @ err))
            | Inr items \<Rightarrow>
                (let peers = collectPeers items []
                 in if length peers = 0 then (None, None)
                    else (Some \<lparr>GangID = gangID, ExpectedMinCount = int (length peers),
                                 Peers = peers\<rparr>, None))))"

definition KueueDiscoverer :: "'ctx PodLister \<Rightarrow> (Pod, 'ctx) GangDiscoverer" where
  "KueueDiscoverer kubeClient =
     \<lparr>Name = ''kueue'', CanHandle = Kueue_CanHandle, ExtractGangID = Kueue_ExtractGangID,
      DiscoverPeers = Kueue_DiscoverPeers kubeClient\<rparr>"

section \<open>The in-memory object store (package memory)\<close>

text \<open>
  The store's implementation (\<open>store.go\<close>: \<open>NewStore\<close>, \<open>Create\<close>, \<open>Get\<close>, \<open>GetList\<close>,
  \<open>GuaranteedUpdate\<close>, \<open>Delete\<close>, \<open>Stats\<close>, \<open>GetCurrentResourceVersion\<close>) is not among the
  sources; only its factory and its tests are. The definitions of this section follow
  sections 3.3, 4.2 and 6.4 of the specification, and agree with the tests of
  \<open>store_test.go\<close>. Every operation runs under the store's single mutex, so it is one
  atomic function of the store's state.
\<close>

text \<open>Modelled from the spec: the sentinel error kinds of section 6.4; the store's error
  values are not among the sources.\<close>

datatype StorageError = AlreadyExists | NotFound | Conflict

text \<open>Modelled from the spec: the kinds of change notification of section 4.2 (\<open>Watch\<close>);
  the store's watch events are not among the sources.\<close>

datatype EventType = Added | Modified | Deleted

text \<open>Modelled from the spec: one notification, the kind of write with the key, the object
  and the revision of the write; the store's notification type is not among the sources.\<close>

record 'v WatchEvent =
  evType :: EventType
  evKey :: string
  evObject :: 'v
  evRevision :: uint64

text \<open>Modelled from the spec: the state of the store (section 3.3 and section 5), whose
  struct is not among the sources: the objects by key, each with its revision, the global
  revision counter, and the notifications sent so far, in the order of the writes. A
  revision is 8 bytes (section 3.3; the tests read it as an unsigned 64-bit integer), a
  64-bit word here: adding one to the largest value wraps to 0.\<close>

record 'v Store =
  items :: "(string \<times> ('v \<times> uint64)) list"
  revision :: uint64
  notified :: "'v WatchEvent list"

text \<open>Modelled from the spec: \<open>NewStore\<close>, which is not among the sources; a fresh store is
  empty, and \<open>TestStore_GetCurrentResourceVersion\<close> reads revision 0 from it.\<close>

definition NewStore :: "'v Store" where
  "NewStore = \<lparr>items = [], revision = 0, notified = []\<rparr>"

text \<open>Modelled from the spec: the lookupKey of a key in the store's map, which is not among
  the sources.\<close>

definition lookupKey :: "'v Store \<Rightarrow> string \<Rightarrow> ('v \<times> uint64) option" where
  "lookupKey s key = map_of (items s) key"

text \<open>Modelled from the spec: \<open>Create\<close> of section 4.2, which is not among the sources:
  it fails with \<open>AlreadyExists\<close> if the key is present; otherwise it assigns the next
  revision, stores the object and notifies \<open>Added\<close>.\<close>

definition Create ::
  "string \<Rightarrow> 'v \<Rightarrow> 'v Store \<Rightarrow> (StorageError + ('v \<times> uint64)) \<times> 'v Store" where
  "Create key obj s =
     (case lookupKey s key of
        Some existing \<Rightarrow> (Inl AlreadyExists, s)
      | None \<Rightarrow>
          (let rv = revision s + 1
           in (Inr (obj, rv),
               s\<lparr>items := AList.update key (obj, rv) (items s),
                  revision := rv,
                  notified := notified s @
                    [\<lparr>evType = Added, evKey = key, evObject = obj, evRevision = rv\<rparr>]\<rparr>)))"

text \<open>Modelled from the spec: \<open>Get\<close> of section 4.2, which is not among the sources: it
  fails with \<open>NotFound\<close> if the key is absent, and returns the value with its revision.\<close>

definition Get :: "string \<Rightarrow> 'v Store \<Rightarrow> StorageError + ('v \<times> uint64)" where
  "Get key s = (case lookupKey s key of None \<Rightarrow> Inl NotFound | Some item \<Rightarrow> Inr item)"

text \<open>Modelled from the spec: \<open>GetList\<close> of section 4.2, which is not among the sources:
  all entries whose key starts with the prefix, and the store's current revision.\<close>

definition GetList ::
  "string \<Rightarrow> 'v Store \<Rightarrow> (string \<times> ('v \<times> uint64)) list \<times> uint64" where
  "GetList pfx s = (filter (\<lambda>(key, item). take (length pfx) key = pfx) (items s), revision s)"

text \<open>Modelled from the spec: \<open>GuaranteedUpdate\<close> of section 4.2, which is not among the
  sources: in one critical section it reads the current object, applies the mutator and
  writes the result back; a result equal to the current object is no write and succeeds;
  a write takes the next revision and notifies \<open>Modified\<close>. The mutator is given the
  current object and its revision (in \<open>store_test.go\<close> it takes the object and a
  \<open>ResponseMeta\<close>) and may fail; its error is the error of the call. On a missing key the
  call fails with \<open>NotFound\<close> (\<open>TestStore_GuaranteedUpdate_NotFound\<close>) unless
  \<open>ignoreNotFound\<close> is set; then the mutator gets no current object and its result is
  stored as a new object.\<close>

definition GuaranteedUpdate ::
  "string \<Rightarrow> ('v option \<Rightarrow> uint64 \<Rightarrow> StorageError + 'v) \<Rightarrow> bool \<Rightarrow> 'v Store
     \<Rightarrow> (StorageError + ('v \<times> uint64)) \<times> 'v Store" where
  "GuaranteedUpdate key mutator ignoreNotFound s =
     (case lookupKey s key of
        None \<Rightarrow>
          (if \<not> ignoreNotFound then (Inl NotFound, s)
           else
             (case mutator None 0 of
                Inl err \<Rightarrow> (Inl err, s)
              | Inr obj \<Rightarrow>
                  (let rv = revision s + 1
                   in (Inr (obj, rv),
                       s\<lparr>items := AList.update key (obj, rv) (items s),
                          revision := rv,
                          notified := notified s @
                            [\<lparr>evType = Added, evKey = key, evObject = obj, evRevision = rv\<rparr>]\<rparr>))))
      | Some (cur, currv) \<Rightarrow>
          (case mutator (Some cur) currv of
             Inl err \<Rightarrow> (Inl err, s)
           | Inr obj \<Rightarrow>
               (if obj = cur then (Inr (cur, currv), s)
                else
                  (let rv = revision s + 1
                   in (Inr (obj, rv),
                       s\<lparr>items := AList.update key (obj, rv) (items s),
                          revision := rv,
                          notified := notified s @
                            [\<lparr>evType = Modified, evKey = key, evObject = obj,
                              evRevision = rv\<rparr>]\<rparr>)))))"

text \<open>Modelled from the spec: \<open>Delete\<close> of section 4.2, which is not among the sources: it
  fails with \<open>NotFound\<close> if the key is absent; otherwise it removes the entry, returns the
  deleted value and notifies \<open>Deleted\<close>. A deletion is a write (section 4.2 lists
  \<open>Deleted\<close> among the events of writes), and section 3.3 increments the counter on every
  write.\<close>

definition Delete ::
  "string \<Rightarrow> 'v Store \<Rightarrow> (StorageError + ('v \<times> uint64)) \<times> 'v Store" where
  "Delete key s =
     (case lookupKey s key of
        None \<Rightarrow> (Inl NotFound, s)
      | Some (obj, objrv) \<Rightarrow>
          (let rv = revision s + 1
           in (Inr (obj, objrv),
               s\<lparr>items := AList.delete key (items s),
                  revision := rv,
                  notified := notified s @
                    [\<lparr>evType = Deleted, evKey = key, evObject = obj, evRevision = rv\<rparr>]\<rparr>)))"

text \<open>Modelled from the spec: \<open>Stats\<close> of section 4.2, the object count; it is not among
  the sources.\<close>

definition Stats :: "'v Store \<Rightarrow> nat" where
  "Stats s = length (items s)"

text \<open>Modelled from the spec: \<open>CurrentRevision\<close> of section 4.2 (the tests call it
  \<open>GetCurrentResourceVersion\<close>); it is not among the sources.\<close>

definition CurrentRevision :: "'v Store \<Rightarrow> uint64" where
  "CurrentRevision s = revision s"

text \<open>Modelled from the spec: the requests a client can send, one per operation of section
  4.2 that reads or writes objects; the store's interface is not among the sources.\<close>

datatype 'v Request =
  ReqCreate string 'v
  | ReqGet string
  | ReqGetList string
  | ReqUpdate string "'v option \<Rightarrow> uint64 \<Rightarrow> StorageError + 'v" bool
  | ReqDelete string

text \<open>Modelled from the spec: the store after serving one request; the requests are served
  one after the other (section 4.2: all writes serialize under a single mutex).\<close>

fun serve :: "'v Store \<Rightarrow> 'v Request \<Rightarrow> 'v Store" where
  "serve s (ReqCreate key obj) = snd (Create key obj s)"
| "serve s (ReqGet key) = s"
| "serve s (ReqGetList pfx) = s"
| "serve s (ReqUpdate key mutator ignoreNotFound) =
     snd (GuaranteedUpdate key mutator ignoreNotFound s)"
| "serve s (ReqDelete key) = snd (Delete key s)"

text \<open>Modelled from the spec: whether a request is a write in the given state, that is,
  whether the operation of section 4.2 it stands for stores or removes an object there.\<close>

fun isWrite :: "'v Store \<Rightarrow> 'v Request \<Rightarrow> bool" where
  "isWrite s (ReqCreate key obj) = (lookupKey s key = None)"
| "isWrite s (ReqGet key) = False"
| "isWrite s (ReqGetList pfx) = False"
| "isWrite s (ReqUpdate key mutator ignoreNotFound) =
     (case lookupKey s key of
        None \<Rightarrow> ignoreNotFound \<and> (case mutator None 0 of Inl err \<Rightarrow> False | Inr obj \<Rightarrow> True)
      | Some (cur, currv) \<Rightarrow>
          (case mutator (Some cur) currv of Inl err \<Rightarrow> False | Inr obj \<Rightarrow> obj \<noteq> cur))"
| "isWrite s (ReqDelete key) = (lookupKey s key \<noteq> None)"

text \<open>Modelled from the spec: the number of writes among the requests of a history that
  starts in the given state.\<close>

fun countWrites :: "'v Store \<Rightarrow> 'v Request list \<Rightarrow> nat" where
  "countWrites s [] = 0"
| "countWrites s (req # reqs) =
     (if isWrite s req then 1 else 0) + countWrites (serve s req) reqs"


text \<open>The history that creates and deletes one key \<open>n\<close> times, and so writes \<open>2 * n\<close>
  times.\<close>

definition churn :: "string \<Rightarrow> 'v \<Rightarrow> nat \<Rightarrow> 'v Request list" where
  "churn key obj n = concat (replicate n [ReqCreate key obj, ReqDelete key])"

subsection \<open>Optimistic updates\<close>











section \<open>The HealthEvent lifecycle\<close>

text \<open>
  The HealthEvent types, the phase machine and the controllers (\<open>api/nvsentinel/v1alpha1\<close>,
  \<open>pkg/controllers/healthevents\<close>, the CRD publisher) are not among the sources; only
  their end-to-end tests and the metrics registration are. The definitions of this
  section follow sections 3.1, 3.2 and 4.3 to 4.9 of the specification. One reconcile of
  a controller reads the event, acts and writes the status; it is one atomic function of
  the state, and what the controller observes of the cluster in that reconcile (whether
  the node exists, how many evictable pods are left, the time) is its argument.
\<close>

text \<open>Modelled from the spec: the phases of section 3.1, the empty string included, which
  is treated as \<open>New\<close>; the type is not among the sources.\<close>

datatype Phase =
  PhaseEmpty | PhaseNew | PhaseQuarantined | PhaseDraining | PhaseDrained
  | PhaseRemediated | PhaseResolved

text \<open>Modelled from the spec: the recommended actions of section 3.1; the type is not
  among the sources (the tests name \<open>ActionRestartVM\<close> and \<open>ActionContactSupport\<close>).\<close>

datatype RecommendedAction =
  ActionNoAction | ActionRestartVM | ActionResetGPU | ActionContactSupport

text \<open>Modelled from the spec: the status of a condition (section 3.1); the type is not
  among the sources.\<close>

datatype ConditionStatus = ConditionTrue | ConditionFalse | ConditionUnknown

text \<open>Modelled from the spec: the condition types of section 3.1; the type is not among
  the sources.\<close>

datatype ConditionType =
  CondNodeQuarantined | CondPodsDrained | CondRemediated | CondResolved

text \<open>Modelled from the spec: a condition of section 3.1, without its free-form message;
  the type is not among the sources.\<close>

record Condition =
  condType :: ConditionType
  condStatus :: ConditionStatus
  condReason :: string
  lastTransitionTime :: nat

text \<open>Modelled from the spec: the override flags of section 3.1; the type is not among the
  sources.\<close>

record Overrides =
  quarantineSkip :: bool
  drainSkip :: bool
  remediationSkip :: bool

text \<open>Modelled from the spec: the HealthEvent record of section 3.1, identity and spec
  first, then the status; the type is not among the sources.\<close>

record HealthEvent =
  eventName :: string
  uid :: string
  source :: string
  nodeName :: string
  componentClass :: string
  checkName :: string
  isFatal :: bool
  isHealthy :: bool
  errorCodes :: "string list"
  recommendedAction :: RecommendedAction
  overrides :: "Overrides option"
  detectedAt :: nat
  message :: string
  phase :: Phase
  conditions :: "Condition list"
  resolvedAt :: "nat option"
  lastUpdated :: nat

text \<open>Modelled from the spec: the phases of a RebootNode record (section 3.2); the type is
  not among the sources.\<close>

datatype RebootPhase = RebootPending | RebootInProgress | RebootCompleted | RebootFailed

text \<open>Modelled from the spec: the RebootNode record of section 3.2, with the name that
  section 4.7 derives from the event's UID; the type is not among the sources.\<close>

record RebootNode =
  rebootNodeName :: string
  rebootNodeOf :: string
  owningHealthEventUID :: string
  createdAt :: nat
  rebootPhase :: RebootPhase

text \<open>Modelled from the spec: the error of a rejected status update (section 4.9); the
  type is not among the sources.\<close>

datatype LifecycleError = InvalidTransition

text \<open>Modelled from the spec: the transition graph of section 4.9, whose code is not among
  the sources. Its line "any non-terminal to Resolved" together with the line "Remediated
  to Resolved" gives every phase but \<open>Resolved\<close> an edge to \<open>Resolved\<close>; \<open>Resolved\<close> is
  terminal.\<close>

fun allowedTransition :: "Phase \<Rightarrow> Phase \<Rightarrow> bool" where
  "allowedTransition PhaseEmpty q = (q = PhaseQuarantined \<or> q = PhaseResolved)"
| "allowedTransition PhaseNew q = (q = PhaseQuarantined \<or> q = PhaseResolved)"
| "allowedTransition PhaseQuarantined q =
     (q = PhaseDraining \<or> q = PhaseDrained \<or> q = PhaseResolved)"
| "allowedTransition PhaseDraining q = (q = PhaseDrained \<or> q = PhaseResolved)"
| "allowedTransition PhaseDrained q = (q = PhaseRemediated \<or> q = PhaseResolved)"
| "allowedTransition PhaseRemediated q = (q = PhaseResolved)"
| "allowedTransition PhaseResolved q = False"

text \<open>Modelled from the spec: setting a condition (section 3.1, invariant 2), whose code
  (\<open>conditions.go\<close>) is not among the sources: each type appears at most once, and the
  transition time changes only when the status changes.\<close>

fun setCondition ::
  "Condition list \<Rightarrow> ConditionType \<Rightarrow> ConditionStatus \<Rightarrow> string \<Rightarrow> nat \<Rightarrow> Condition list" where
  "setCondition [] t st r now =
     [\<lparr>condType = t, condStatus = st, condReason = r, lastTransitionTime = now\<rparr>]"
| "setCondition (c # cs) t st r now =
     (if condType c = t then
        (if condStatus c = st then c\<lparr>condReason := r\<rparr>
         else \<lparr>condType = t, condStatus = st, condReason = r, lastTransitionTime = now\<rparr>) # cs
      else c # setCondition cs t st r now)"

text \<open>Modelled from the spec: reading the condition of a type (section 3.1); the code is
  not among the sources.\<close>

fun findCondition :: "Condition list \<Rightarrow> ConditionType \<Rightarrow> Condition option" where
  "findCondition [] t = None"
| "findCondition (c # cs) t = (if condType c = t then Some c else findCondition cs t)"

text \<open>Modelled from the spec: whether an event has a condition of the given type with the
  given status and reason; the code is not among the sources.\<close>

definition hasCondition ::
  "HealthEvent \<Rightarrow> ConditionType \<Rightarrow> ConditionStatus \<Rightarrow> string \<Rightarrow> bool" where
  "hasCondition e t st r =
     (case findCondition (conditions e) t of
        None \<Rightarrow> False
      | Some c \<Rightarrow> condStatus c = st \<and> condReason c = r)"

text \<open>Modelled from the spec: the status update of sections 4.4 and 4.9, whose code is not
  among the sources: a change of phase that is no edge of the graph fails with
  \<open>InvalidTransition\<close>; otherwise the phase and the condition are written, \<open>resolvedAt\<close> is
  set when the phase becomes \<open>Resolved\<close>, and \<open>lastUpdated\<close> on every write.\<close>

definition updateStatus ::
  "HealthEvent \<Rightarrow> Phase \<Rightarrow> (ConditionType \<times> ConditionStatus \<times> string) \<Rightarrow> nat
     \<Rightarrow> LifecycleError + HealthEvent" where
  "updateStatus e newPhase cond now =
     (if newPhase \<noteq> phase e \<and> \<not> allowedTransition (phase e) newPhase then Inl InvalidTransition
      else
        (case cond of (t, st, r) \<Rightarrow>
           Inr (e\<lparr>phase := newPhase,
                  conditions := setCondition (conditions e) t st r now,
                  resolvedAt := (if newPhase = PhaseResolved
                                 then (case resolvedAt e of None \<Rightarrow> Some now | Some ra \<Rightarrow> Some ra)
                                 else resolvedAt e),
                  lastUpdated := now\<rparr>)))"

text \<open>Modelled from the spec: what the controllers act on for one event, none of it among
  the sources: the event, whether the TTL controller has deleted it, the node's
  unschedulable flag, the annotation by which the quarantine controller marks a cordon
  as its own (section 4.8), and the RebootNode records.\<close>

record World =
  event :: HealthEvent
  eventDeleted :: bool
  nodeUnschedulable :: bool
  cordonAnnotation :: bool
  rebootNodes :: "RebootNode list"

text \<open>Modelled from the spec: a controller's status write (section 4.4, step 4); a
  rejected update leaves the record as it is. The code is not among the sources.\<close>

definition applyStatus ::
  "World \<Rightarrow> Phase \<Rightarrow> (ConditionType \<times> ConditionStatus \<times> string) \<Rightarrow> nat \<Rightarrow> World" where
  "applyStatus w newPhase cond now =
     (case updateStatus (event w) newPhase cond now of
        Inl err \<Rightarrow> w
      | Inr e' \<Rightarrow> w\<lparr>event := e'\<rparr>)"

text \<open>Modelled from the spec: whether an override flag of the event is set (section 3.1:
  the overrides are optional); the code is not among the sources.\<close>

definition overrideSet :: "HealthEvent \<Rightarrow> (Overrides \<Rightarrow> bool) \<Rightarrow> bool" where
  "overrideSet e flag = (case overrides e of None \<Rightarrow> False | Some ov \<Rightarrow> flag ov)"

text \<open>Modelled from the spec: one reconcile of the quarantine controller (section 4.5),
  whose code (\<open>quarantine_controller.go\<close>) is not among the sources. \<open>nodeFound\<close> tells
  whether the node exists.\<close>

definition quarantineReconcile :: "bool \<Rightarrow> nat \<Rightarrow> World \<Rightarrow> World" where
  "quarantineReconcile nodeFound now w =
     (let e = event w in
      if phase e \<noteq> PhaseNew \<and> phase e \<noteq> PhaseEmpty then w
      else if \<not> isFatal e \<or> overrideSet e quarantineSkip then
        applyStatus w PhaseQuarantined (CondNodeQuarantined, ConditionFalse, ''Skipped'') now
      else if \<not> nodeFound then
        applyStatus w (phase e) (CondNodeQuarantined, ConditionFalse, ''NodeMissing'') now
      else
        applyStatus
          (if nodeUnschedulable w then w
           else w\<lparr>nodeUnschedulable := True, cordonAnnotation := True\<rparr>)
          PhaseQuarantined (CondNodeQuarantined, ConditionTrue, []) now)"

text \<open>Modelled from the spec: one reconcile of the drain controller (section 4.6), whose
  code (\<open>drain_controller.go\<close>) is not among the sources. \<open>evictable\<close> is the number of
  evictable pods on the node, \<open>blocked\<close> whether an eviction was rejected by a disruption
  budget.\<close>

definition drainReconcile :: "nat \<Rightarrow> bool \<Rightarrow> nat \<Rightarrow> World \<Rightarrow> World" where
  "drainReconcile evictable blocked now w =
     (let e = event w in
      if phase e = PhaseQuarantined then
        (if overrideSet e drainSkip \<or> evictable = 0 then
           applyStatus w PhaseDrained (CondPodsDrained, ConditionTrue, ''Skipped'') now
         else
           applyStatus w PhaseDraining (CondPodsDrained, ConditionUnknown, ''InProgress'') now)
      else if phase e = PhaseDraining then
        (if evictable = 0 then
           applyStatus w PhaseDrained (CondPodsDrained, ConditionTrue, []) now
         else if blocked then
           applyStatus w PhaseDraining (CondPodsDrained, ConditionUnknown, ''Blocked'') now
         else w)
      else w)"

text \<open>Modelled from the spec: the events that the remediation controller skips (section
  4.7); the code is not among the sources.\<close>

definition remediationSkipped :: "HealthEvent \<Rightarrow> bool" where
  "remediationSkipped e =
     (recommendedAction e = ActionNoAction \<or> recommendedAction e = ActionContactSupport \<or>
      overrideSet e remediationSkip)"

text \<open>Modelled from the spec: the name of an event's RebootNode record, derived from the
  event's UID (section 4.7); the derivation itself is not given, and not among the
  sources.\<close>

definition rebootNodeNameFor :: "string \<Rightarrow> string" where
  "rebootNodeNameFor u = ''reboot-'' @ u"

text \<open>Modelled from the spec: reading the event's RebootNode record by its name (section
  4.7); the code is not among the sources.\<close>

definition findRebootNode :: "World \<Rightarrow> RebootNode option" where
  "findRebootNode w =
     find (\<lambda>r. rebootNodeName r = rebootNodeNameFor (uid (event w))) (rebootNodes w)"

text \<open>Modelled from the spec: one reconcile of the remediation controller (section 4.7),
  whose code (\<open>remediation_controller.go\<close>) is not among the sources.\<close>

definition remediationReconcile :: "nat \<Rightarrow> World \<Rightarrow> World" where
  "remediationReconcile now w =
     (let e = event w in
      if phase e \<noteq> PhaseDrained then w
      else if remediationSkipped e then
        applyStatus w PhaseDrained (CondRemediated, ConditionFalse, ''Skipped'') now
      else
        (case findRebootNode w of
           None \<Rightarrow>
             w\<lparr>rebootNodes := rebootNodes w @
                  [\<lparr>rebootNodeName = rebootNodeNameFor (uid e), rebootNodeOf = nodeName e,
                    owningHealthEventUID = uid e, createdAt = now,
                    rebootPhase = RebootPending\<rparr>]\<rparr>
         | Some r \<Rightarrow>
             (case rebootPhase r of
                RebootCompleted \<Rightarrow>
                  applyStatus w PhaseRemediated (CondRemediated, ConditionTrue, []) now
              | RebootFailed \<Rightarrow>
                  applyStatus w PhaseDrained (CondRemediated, ConditionFalse, ''Failed'') now
              | RebootPending \<Rightarrow> w
              | RebootInProgress \<Rightarrow> w)))"

text \<open>Modelled from the spec: the external reboot executor reporting a phase on the event's
  RebootNode record (section 3.2); it is not among the sources.\<close>

definition executorReport :: "RebootPhase \<Rightarrow> World \<Rightarrow> World" where
  "executorReport ph w =
     w\<lparr>rebootNodes :=
         map (\<lambda>r. if rebootNodeName r = rebootNodeNameFor (uid (event w))
                   then r\<lparr>rebootPhase := ph\<rparr> else r)
           (rebootNodes w)\<rparr>"

text \<open>Modelled from the spec: the publisher on a healthy signal that matches the event
  (section 4.3, step 3), whose code is not among the sources: an open event becomes
  \<open>Resolved\<close>; on a resolved one nothing changes.\<close>

definition healthySignal :: "nat \<Rightarrow> World \<Rightarrow> World" where
  "healthySignal now w =
     (if phase (event w) = PhaseResolved then w
      else applyStatus w PhaseResolved (CondResolved, ConditionTrue, []) now)"

text \<open>Modelled from the spec: the publisher on a repeated signal for the open event (section
  4.3, step 4), whose code is not among the sources: the error codes are appended without
  duplicates and the phase is not changed.\<close>

definition duplicateSignal :: "string list \<Rightarrow> nat \<Rightarrow> World \<Rightarrow> World" where
  "duplicateSignal codes now w =
     (if phase (event w) = PhaseResolved then w
      else w\<lparr>event := (event w)\<lparr>errorCodes := remdups (errorCodes (event w) @ codes),
                                    lastUpdated := now\<rparr>\<rparr>)"

text \<open>Modelled from the spec: one reconcile of the TTL controller (section 4.8), whose code
  (\<open>ttl_controller.go\<close>) is not among the sources: for a resolved event it uncordons a node
  that carries the controller's annotation and deletes the event once the TTL has passed
  since \<open>resolvedAt\<close>.\<close>

definition ttlReconcile :: "nat \<Rightarrow> nat \<Rightarrow> World \<Rightarrow> World" where
  "ttlReconcile ttl now w =
     (if phase (event w) \<noteq> PhaseResolved then w
      else
        (let w1 = (if cordonAnnotation w
                   then w\<lparr>nodeUnschedulable := False, cordonAnnotation := False\<rparr> else w)
         in case resolvedAt (event w) of
              None \<Rightarrow> w1
            | Some ra \<Rightarrow> if ra + ttl \<le> now then w1\<lparr>eventDeleted := True\<rparr> else w1))"

text \<open>Modelled from the spec: the operations of an operational history, none of them among
  the sources: the reconciles of the four controllers, the executor's report, the
  publisher's two signals, and a status update by any other writer (an operator's manual
  intervention), which goes through the same validation.\<close>

datatype Operation =
  QuarantineReconcile bool nat
  | DrainReconcile nat bool nat
  | RemediationReconcile nat
  | ExecutorReport RebootPhase
  | HealthySignal nat
  | DuplicateSignal "string list" nat
  | TTLReconcile nat nat
  | ManualStatusUpdate Phase ConditionType ConditionStatus string nat

text \<open>Modelled from the spec: the effect of one operation on an event that exists.\<close>

fun perform :: "Operation \<Rightarrow> World \<Rightarrow> World" where
  "perform (QuarantineReconcile nodeFound now) w = quarantineReconcile nodeFound now w"
| "perform (DrainReconcile evictable blocked now) w = drainReconcile evictable blocked now w"
| "perform (RemediationReconcile now) w = remediationReconcile now w"
| "perform (ExecutorReport ph) w = executorReport ph w"
| "perform (HealthySignal now) w = healthySignal now w"
| "perform (DuplicateSignal codes now) w = duplicateSignal codes now w"
| "perform (TTLReconcile ttl now) w = ttlReconcile ttl now w"
| "perform (ManualStatusUpdate p t st r now) w = applyStatus w p (t, st, r) now"

text \<open>Modelled from the spec: one step of a history; nothing acts on a deleted event.\<close>

definition step :: "World \<Rightarrow> Operation \<Rightarrow> World" where
  "step w op = (if eventDeleted w then w else perform op w)"

text \<open>Modelled from the spec: an operational history, the operations in their order.\<close>

definition run :: "World \<Rightarrow> Operation list \<Rightarrow> World" where
  "run w ops = foldl step w ops"

text \<open>Modelled from the spec: the position of a phase in the order of section 4.9, the
  empty phase at the place of \<open>New\<close> and the terminal \<open>Resolved\<close> last.\<close>

fun phaseRank :: "Phase \<Rightarrow> nat" where
  "phaseRank PhaseEmpty = 0"
| "phaseRank PhaseNew = 0"
| "phaseRank PhaseQuarantined = 1"
| "phaseRank PhaseDraining = 2"
| "phaseRank PhaseDrained = 3"
| "phaseRank PhaseRemediated = 4"
| "phaseRank PhaseResolved = 5"

text \<open>Modelled from the spec: what one operation may do to the phase: leave it, or follow an
  edge of the graph of section 4.9.\<close>

definition phaseStep :: "Phase \<Rightarrow> Phase \<Rightarrow> bool" where
  "phaseStep p q = (q = p \<or> allowedTransition p q)"

text \<open>Modelled from the spec: the operations that are a manual intervention.\<close>

fun isManual :: "Operation \<Rightarrow> bool" where
  "isManual (ManualStatusUpdate p t st r now) = True"
| "isManual op = False"

text \<open>Modelled from the spec: the operations that carry a healthy signal.\<close>

fun isHealthySignal :: "Operation \<Rightarrow> bool" where
  "isHealthySignal (HealthySignal now) = True"
| "isHealthySignal op = False"

text \<open>Modelled from the spec: the fields of an event that no controller writes (section 3.1:
  the spec is immutable after creation but for the producing component).\<close>

definition specFields ::
  "HealthEvent \<Rightarrow> string \<times> string \<times> bool \<times> RecommendedAction \<times> Overrides option" where
  "specFields e = (uid e, nodeName e, isFatal e, recommendedAction e, overrides e)"

text \<open>
  What a history without manual intervention keeps true of an event whose remediation is
  skipped, relative to the state \<open>w\<close> it started in.
\<close>

definition skipInvariant :: "World \<Rightarrow> bool \<Rightarrow> World \<Rightarrow> bool" where
  "skipInvariant w healthy w' =
     (remediationSkipped (event w') \<and>
      map rebootNodeName (rebootNodes w') = map rebootNodeName (rebootNodes w) \<and>
      phase (event w') \<noteq> PhaseRemediated \<and>
      (if phase (event w) = PhaseDrained
       then phase (event w') = PhaseDrained \<or> (healthy \<and> phase (event w') = PhaseResolved)
       else True) \<and>
      (if hasCondition (event w) CondRemediated ConditionFalse ''Skipped''
       then hasCondition (event w') CondRemediated ConditionFalse ''Skipped'' else True))"

section \<open>Properties of the classifier\<close>

lemma defaultIgnored_iff:
  "lookupBool defaultIgnoredXids c = (c \<in> {13, 31, 43, 45, 68, 109})"
  by (simp add: lookupBool_def defaultIgnoredXids_def)

lemma critical_iff:
  "lookupBool criticalXids c = (c \<in> {48, 63, 64, 74, 79, 94, 95, 119, 120})"
  by (simp add: lookupBool_def criticalXids_def)

lemma inAdditional_iff: "inAdditional xid A = (xid \<in> set A)"
  by (induction A) auto

text \<open>
  Claim C2. For every 64-bit unsigned code \<open>c\<close>, \<open>GetXidSeverity\<close> returns Ignored exactly
  on the codes 13, 31, 43, 45, 68, 109, Critical exactly on the codes 48, 63, 64, 74, 79,
  94, 95, 119, 120, and Warning exactly on all the other codes.
\<close>

theorem GetXidSeverity_classes:
  "(GetXidSeverity c = XidSeverityIgnored) = (c \<in> {13, 31, 43, 45, 68, 109}) \<and>
   (GetXidSeverity c = XidSeverityCritical) = (c \<in> {48, 63, 64, 74, 79, 94, 95, 119, 120}) \<and>
   (GetXidSeverity c = XidSeverityWarning) =
      (c \<notin> {13, 31, 43, 45, 68, 109} \<and> c \<notin> {48, 63, 64, 74, 79, 94, 95, 119, 120})"
  unfolding GetXidSeverity_def defaultIgnored_iff critical_iff
  by auto

theorem GetXidSeverity_classes_witness:
  "GetXidSeverity 13 = XidSeverityIgnored \<and> GetXidSeverity 79 = XidSeverityCritical \<and>
   GetXidSeverity 145 = XidSeverityWarning"
  using GetXidSeverity_classes [of 13] GetXidSeverity_classes [of 79]
    GetXidSeverity_classes [of 145]
  by simp

lemma described_iff:
  "map_of XidDescriptions c = None \<longleftrightarrow>
   c \<notin> {13, 31, 43, 45, 68, 109, 48, 63, 64, 74, 79, 94, 95, 119, 120,
            8, 32, 38, 56, 57, 62, 69}"
  by (simp add: XidDescriptions_def)

text \<open>
  Claim C8, as stated, fails: the description of a code comes from the table
  \<open>XidDescriptions\<close>, not from the two classification tables, and the fallback string
  is \<open>Unknown XID\<close>. Code 8 is in neither classification table and is described as
  \<open>GPU not accessible\<close>; code 1 is in no table and is described as \<open>Unknown XID\<close>.
\<close>

theorem unknown_description_counterexample:
  "\<not> lookupBool defaultIgnoredXids 8 \<and> \<not> lookupBool criticalXids 8 \<and>
   GetXidSeverity 8 = XidSeverityWarning \<and> xidToString 8 = ''GPU not accessible'' \<and>
   xidToString 8 \<noteq> ''Unknown'' \<and>
   \<not> lookupBool defaultIgnoredXids 1 \<and> \<not> lookupBool criticalXids 1 \<and>
   GetXidSeverity 1 = XidSeverityWarning \<and> xidToString 1 = ''Unknown XID'' \<and>
   xidToString 1 \<noteq> ''Unknown''"
  by (simp add: lookupBool_def defaultIgnoredXids_def criticalXids_def GetXidSeverity_def
      xidToString_def XidDescriptions_def)

text \<open>
  Claim C8, amended. A code that is in neither classification table has severity Warning.
  Its description is the entry of \<open>XidDescriptions\<close> when it has one (the codes 8, 32,
  38, 56, 57, 62 and 69), and the string \<open>Unknown XID\<close> otherwise: so every code that is
  missing from all three tables gets Warning together with \<open>Unknown XID\<close>.
\<close>

theorem unclassified_warning_description:
  assumes "\<not> lookupBool defaultIgnoredXids c" and "\<not> lookupBool criticalXids c"
  shows "GetXidSeverity c = XidSeverityWarning \<and>
         xidToString c =
           (if c = 8 then ''GPU not accessible''
            else if c = 32 then ''Invalid or corrupted push buffer stream''
            else if c = 38 then ''Driver firmware error''
            else if c = 56 then ''Display engine error''
            else if c = 57 then ''Error programming video memory interface''
            else if c = 62 then ''Internal micro-controller halt (non-fatal)''
            else if c = 69 then ''Graphics engine accessor error''
            else ''Unknown XID'')"
proof
  show "GetXidSeverity c = XidSeverityWarning"
    using assms by (simp add: GetXidSeverity_def)
next
  have "c \<notin> {13, 31, 43, 45, 68, 109}" and "c \<notin> {48, 63, 64, 74, 79, 94, 95, 119, 120}"
    using assms by (simp_all only: defaultIgnored_iff critical_iff not_False_eq_True)
  then show "xidToString c =
           (if c = 8 then ''GPU not accessible''
            else if c = 32 then ''Invalid or corrupted push buffer stream''
            else if c = 38 then ''Driver firmware error''
            else if c = 56 then ''Display engine error''
            else if c = 57 then ''Error programming video memory interface''
            else if c = 62 then ''Internal micro-controller halt (non-fatal)''
            else if c = 69 then ''Graphics engine accessor error''
            else ''Unknown XID'')"
    by (simp add: xidToString_def XidDescriptions_def)
qed

theorem unclassified_warning_description_witness:
  "GetXidSeverity 145 = XidSeverityWarning \<and> xidToString 145 = ''Unknown XID'' \<and>
   GetXidSeverity 62 = XidSeverityWarning \<and>
   xidToString 62 = ''Internal micro-controller halt (non-fatal)''"
proof -
  have a: "\<not> lookupBool defaultIgnoredXids 145" "\<not> lookupBool criticalXids 145"
    and b: "\<not> lookupBool defaultIgnoredXids 62" "\<not> lookupBool criticalXids 62"
    by (simp_all add: lookupBool_def defaultIgnoredXids_def criticalXids_def)
  show ?thesis
    using unclassified_warning_description [OF a] unclassified_warning_description [OF b]
    by simp
qed

text \<open>
  Claim C10. \<open>GetXidSeverity\<close> takes the code alone: the additional-ignored list \<open>A\<close> is
  no argument of it, and its Ignored class is \<open>isIgnoredXid\<close> at the empty list. The list
  is read by \<open>isIgnoredXid\<close> only, which holds exactly when the code is default-ignored
  or a member of \<open>A\<close>; a code that is ignored through \<open>A\<close> alone keeps the severity
  Warning or Critical.
\<close>

theorem severity_independent_of_additional:
  "isIgnoredXid c A = (c \<in> {13, 31, 43, 45, 68, 109} \<or> c \<in> set A) \<and>
   (GetXidSeverity c = XidSeverityIgnored) = isIgnoredXid c [] \<and>
   (c \<in> set A \<and> c \<notin> {13, 31, 43, 45, 68, 109} \<longrightarrow>
      isIgnoredXid c A \<and>
      (GetXidSeverity c = XidSeverityWarning \<or> GetXidSeverity c = XidSeverityCritical))"
  unfolding isIgnoredXid_def GetXidSeverity_def defaultIgnored_iff inAdditional_iff
  by auto

theorem severity_independent_of_additional_witness:
  "isIgnoredXid 79 [62, 79] \<and> GetXidSeverity 79 = XidSeverityCritical \<and>
   isIgnoredXid 62 [62, 79] \<and> GetXidSeverity 62 = XidSeverityWarning \<and>
   \<not> isIgnoredXid 79 []"
  using severity_independent_of_additional [of 79 "[62, 79]"]
    severity_independent_of_additional [of 62 "[62, 79]"]
    severity_independent_of_additional [of 79 "[]"]
  by (simp add: GetXidSeverity_def lookupBool_def defaultIgnoredXids_def criticalXids_def)

section \<open>Properties of the ignored-codes parser\<close>

lemma decimalFrom_ge: "m \<le> decimalFrom m cs"
proof (induction cs arbitrary: m)
  case Nil
  show ?case by simp
next
  case (Cons c cs)
  have "m \<le> m * 10 + digitVal c" by simp
  also have "\<dots> \<le> decimalFrom (m * 10 + digitVal c) cs" by (rule Cons.IH)
  finally show ?case by simp
qed

lemma cutoff_val: "unat cutoff = 1844674407370955162"
  by (simp add: cutoff_def maxUint64_def)

lemma maxUint64_top: "\<not> n > maxUint64"
  by (simp add: maxUint64_def word_less_nat_alt not_less) (use unsigned_less [of n, where 'a = nat] in simp)

text \<open>One round of the digit loop below the cutoff, read on natural numbers.\<close>

lemma digit_step:
  fixes n :: uint64
  assumes "\<not> cutoff \<le> n" and "d < 10"
  shows "(n * 10 + of_nat d < n * 10) = (2 ^ 64 \<le> unat n * 10 + d)"
    and "\<not> (n * 10 + of_nat d < n * 10) \<Longrightarrow> unat (n * 10 + of_nat d) = unat n * 10 + d"
proof -
  have lt: "unat n < 1844674407370955162"
    using assms(1) by (simp add: word_le_nat_alt cutoff_val)
  have m: "unat (n * 10) = unat n * 10"
    using lt by (simp add: unat_word_ariths unat_mult_lem [THEN iffD1])
  have d: "unat (of_nat d :: uint64) = d"
    using assms(2) by (simp add: unat_of_nat)
  have bound: "unat n * 10 < 2 ^ 64" using lt by simp
  have s: "unat (n * 10 + of_nat d) = (unat n * 10 + d) mod 2 ^ 64"
    by (simp add: unat_word_ariths(1) m d)
  show e: "(n * 10 + of_nat d < n * 10) = (2 ^ 64 \<le> unat n * 10 + d)"
  proof (cases "unat n * 10 + d < 2 ^ 64")
    case True
    then show ?thesis by (simp add: word_less_nat_alt s m)
  next
    case False
    then have "(unat n * 10 + d) mod 2 ^ 64 = unat n * 10 + d - 2 ^ 64"
      using bound assms(2) by (simp add: mod_if)
    then show ?thesis using False assms(2) bound by (simp add: word_less_nat_alt s m)
  qed
  show "\<not> (n * 10 + of_nat d < n * 10) \<Longrightarrow> unat (n * 10 + of_nat d) = unat n * 10 + d"
    unfolding e s by simp
qed

lemma parseUintLoop_Inr:
  "parseUintLoop cs n = Inr v \<longleftrightarrow>
     (\<forall>c \<in> set cs. isDigit c) \<and> decimalFrom (unat n) cs < 2 ^ 64 \<and>
     v = of_nat (decimalFrom (unat n) cs)"
proof (induction cs arbitrary: n)
  case Nil
  show ?case using unsigned_less [of n, where 'a = nat] by auto
next
  case (Cons c cs)
  show ?case
  proof (cases "isDigit c")
    case False
    then show ?thesis by simp
  next
    case dig: True
    then have d10: "digitVal c < 10" by (auto simp: isDigit_def digitVal_def)
    show ?thesis
    proof (cases "cutoff \<le> n")
      case True
      then have "2 ^ 64 \<le> unat n * 10 + digitVal c"
        by (simp add: word_le_nat_alt cutoff_val)
      also have "\<dots> \<le> decimalFrom (unat n * 10 + digitVal c) cs"
        by (rule decimalFrom_ge)
      finally show ?thesis using True dig by simp
    next
      case nc: False
      note sf = digit_step [OF nc d10]
      show ?thesis
      proof (cases "n * 10 + of_nat (digitVal c) < n * 10")
        case True
        then have "2 ^ 64 \<le> unat n * 10 + digitVal c" using sf(1) by simp
        also have "\<dots> \<le> decimalFrom (unat n * 10 + digitVal c) cs"
          by (rule decimalFrom_ge)
        finally show ?thesis using True dig nc by (simp add: Let_def)
      next
        case False
        then show ?thesis
          using dig nc sf(2) [OF False] Cons.IH [of "n * 10 + of_nat (digitVal c)"]
          by (simp add: Let_def maxUint64_top)
      qed
    qed
  qed
qed

lemma ParseUint_Inr:
  "ParseUint s = Inr v \<longleftrightarrow>
     s \<noteq> [] \<and> (\<forall>c \<in> set s. isDigit c) \<and> decimal s < 2 ^ 64 \<and> v = of_nat (decimal s)"
  by (simp add: ParseUint_def parseUintLoop_Inr decimal_def)

lemma ParseUint_value: "parsesAsUint t \<Longrightarrow> ParseUint t = Inr (tokenValue t)"
  by (auto simp: parsesAsUint_def ParseUint_Inr list_all_iff tokenValue_def)

lemma ParseUint_error: "\<not> parsesAsUint t \<Longrightarrow> \<exists>e. ParseUint t = Inl e"
  by (cases "ParseUint t") (auto simp: parsesAsUint_def ParseUint_Inr list_all_iff)

lemma splitOn_nonempty: "splitOn f cs \<noteq> []"
  by (induction cs) (auto split: list.splits)

text \<open>
  The invariant of the scan: the fields still to come are those of the rest of the
  input, the first of them continuing the field being read.
\<close>

lemma fieldsLoop_split:
  assumes "cur \<noteq> Some []" and "splitOn f cs = t0 # ts"
  shows "fieldsLoop f cs cur spans =
         spans @ filter (\<lambda>t. t \<noteq> []) (((case cur of None \<Rightarrow> [] | Some t \<Rightarrow> t) @ t0) # ts)"
  using assms
proof (induction cs arbitrary: cur spans t0 ts)
  case Nil
  then show ?case by (cases cur) auto
next
  case (Cons c cs)
  obtain u us where u: "splitOn f cs = u # us"
    using splitOn_nonempty [of f cs] by (cases "splitOn f cs") auto
  show ?case
  proof (cases "f c")
    case True
    with Cons.prems u have t: "t0 = []" "ts = u # us" by auto
    show ?thesis
      using True t Cons.prems(1) Cons.IH [OF _ u, of None]
      by (cases cur) auto
  next
    case False
    with Cons.prems u have t: "t0 = c # u" "ts = us" by auto
    show ?thesis
      using False t Cons.prems(1) Cons.IH [OF _ u, of "Some [c]"]
        Cons.IH [OF _ u, of "Some (the cur @ [c])"]
      by (cases cur) auto
  qed
qed

lemma FieldsFunc_tokens: "FieldsFunc s isSeparator = tokensOf s"
proof -
  obtain u us where u: "splitOn isSeparator s = u # us"
    using splitOn_nonempty [of isSeparator s] by (cases "splitOn isSeparator s") auto
  show ?thesis
    using fieldsLoop_split [of None isSeparator s u us "[]"] u
    by (simp add: FieldsFunc_def tokensOf_def)
qed

lemma splitOn_no_separator: "t \<in> set (splitOn f s) \<Longrightarrow> c \<in> set t \<Longrightarrow> \<not> f c"
proof (induction s arbitrary: t)
  case Nil
  then show ?case by simp
next
  case (Cons a s)
  obtain u us where u: "splitOn f s = u # us"
    using splitOn_nonempty [of f s] by (cases "splitOn f s") auto
  show ?case
  proof (cases "f a")
    case True
    with Cons.prems have "t \<in> set (splitOn f s)" by auto
    then show ?thesis using Cons.IH Cons.prems(2) by blast
  next
    case False
    with Cons.prems u have "t = a # u \<or> t \<in> set us" by auto
    then show ?thesis
    proof
      assume "t = a # u"
      then have "c = a \<or> c \<in> set u" using Cons.prems(2) by auto
      then show ?thesis using False Cons.IH [of u] u by auto
    next
      assume "t \<in> set us"
      then show ?thesis using Cons.IH [of t] u Cons.prems(2) by auto
    qed
  qed
qed

lemma tokensOf_tokens:
  "t \<in> set (tokensOf s) \<Longrightarrow> t \<noteq> [] \<and> (\<forall>c \<in> set t. \<not> isSeparator c)"
  using splitOn_no_separator [of t isSeparator s] by (auto simp: tokensOf_def)

lemma parseTokens_filter:
  "parseTokens toks result = result @ map tokenValue (filter parsesAsUint toks)"
proof (induction toks arbitrary: result)
  case Nil
  show ?case by simp
next
  case (Cons t toks)
  show ?case
  proof (cases "parsesAsUint t")
    case True
    then show ?thesis using ParseUint_value [OF True] Cons.IH by simp
  next
    case False
    then obtain e where "ParseUint t = Inl e" using ParseUint_error by blast
    then show ?thesis using False Cons.IH by simp
  qed
qed

text \<open>
  Claim C7. \<open>ParseIgnoredXids\<close> returns \<open>nil\<close> on the empty input, and on every input
  the values, in input order, of exactly those comma-or-space separated tokens that
  parse as unsigned 64-bit integers; every other token (one with a byte that is no
  decimal digit, or a digit string beyond 64 bits) is dropped without an error, and a
  result without values is \<open>nil\<close>. A token parses exactly when \<open>ParseUint\<close> succeeds on it.
\<close>

theorem ParseIgnoredXids_tokens:
  "ParseIgnoredXids [] = None \<and>
   ParseIgnoredXids input = sliceOf (map tokenValue (filter parsesAsUint (tokensOf input))) \<and>
   parsesAsUint t = (\<exists>v. ParseUint t = Inr v)"
proof (intro conjI)
  show "ParseIgnoredXids [] = None" by (simp add: ParseIgnoredXids_def)
  show "ParseIgnoredXids input = sliceOf (map tokenValue (filter parsesAsUint (tokensOf input)))"
    by (auto simp: ParseIgnoredXids_def FieldsFunc_tokens parseTokens_filter sliceOf_def
        tokensOf_def Let_def)
  show "parsesAsUint t = (\<exists>v. ParseUint t = Inr v)"
    by (auto simp: parsesAsUint_def ParseUint_Inr list_all_iff)
qed

theorem ParseIgnoredXids_tokens_witness:
  "ParseIgnoredXids ''13, 31,,x9 45'' = Some [13, 31, 45] \<and>
   ParseIgnoredXids '', abc'' = None \<and>
   ParseIgnoredXids ''7 18446744073709551616'' = Some [7]"
  using ParseIgnoredXids_tokens [of "''13, 31,,x9 45''"]
    ParseIgnoredXids_tokens [of "'', abc''"]
    ParseIgnoredXids_tokens [of "''7 18446744073709551616''"]
  by (simp add: sliceOf_def tokensOf_def isSeparator_def parsesAsUint_def isDigit_def
      decimal_def digitVal_def tokenValue_def)

section \<open>Properties of the composite gang discoverer\<close>

lemma canHandleLoop_iff: "canHandleLoop ds pod = (\<exists>d \<in> set ds. CanHandle d pod)"
  by (induction ds) auto

lemma discoverPeersLoop_none:
  "\<forall>d \<in> set ds. \<not> CanHandle d pod \<Longrightarrow> discoverPeersLoop ds ctx pod = (None, None)"
  by (induction ds) auto

lemma discoverPeersLoop_first:
  "i < length ds \<Longrightarrow> CanHandle (ds ! i) pod \<Longrightarrow> \<forall>j < i. \<not> CanHandle (ds ! j) pod \<Longrightarrow>
   discoverPeersLoop ds ctx pod = DiscoverPeers (ds ! i) ctx pod"
proof (induction ds arbitrary: i)
  case Nil
  then show ?case by simp
next
  case (Cons d ds)
  show ?case
  proof (cases i)
    case 0
    with Cons.prems show ?thesis by simp
  next
    case (Suc k)
    with Cons.prems have "\<not> CanHandle d pod" by auto
    moreover have "discoverPeersLoop ds ctx pod = DiscoverPeers (ds ! k) ctx pod"
      using Cons.prems Suc by (intro Cons.IH) auto
    ultimately show ?thesis using Suc by simp
  qed
qed

text \<open>
  Claim C9. For every pod and every list of members, the composite's \<open>CanHandle\<close> holds
  exactly when some member's does; \<open>DiscoverPeers\<close> returns what the first member, in
  construction order, whose \<open>CanHandle\<close> holds returns for the pod, and the pair
  \<open>(nil, nil)\<close> when no member can handle the pod.
\<close>

theorem composite_first_match:
  "Composite_CanHandle c pod = (\<exists>d \<in> set (discoverers c). CanHandle d pod) \<and>
   (\<forall>i < length (discoverers c).
      CanHandle (discoverers c ! i) pod \<and> (\<forall>j < i. \<not> CanHandle (discoverers c ! j) pod) \<longrightarrow>
      Composite_DiscoverPeers c ctx pod = DiscoverPeers (discoverers c ! i) ctx pod) \<and>
   (\<not> Composite_CanHandle c pod \<longrightarrow> Composite_DiscoverPeers c ctx pod = (None, None))"
  unfolding Composite_CanHandle_def Composite_DiscoverPeers_def
  using discoverPeersLoop_first [of _ "discoverers c" pod ctx]
    discoverPeersLoop_none [of "discoverers c" pod ctx]
  by (auto simp: canHandleLoop_iff)

theorem composite_first_match_witness:
  "Composite_CanHandle
     (NewCompositeGangDiscoverer
        [\<lparr>Name = ''never'', CanHandle = (\<lambda>p. False), ExtractGangID = (\<lambda>p. []),
          DiscoverPeers = (\<lambda>(ctx::unit) p. (None, Some ''unused''))\<rparr>,
         KueueDiscoverer (\<lambda>ctx ns sel. Inr [\<lparr>Pod_Name = ''w-0'', Pod_Namespace = ''ml'',
      Pod_Labels = Some [KueueWorkloadNameLabel \<mapsto> ''job''],
      Status_Phase = PodRunning, Status_PodIP = ''10.0.0.1'', Spec_NodeName = ''n1''\<rparr>,
      \<lparr>Pod_Name = ''w-1'', Pod_Namespace = ''ml'',
      Pod_Labels = Some [KueueWorkloadNameLabel \<mapsto> ''job''],
      Status_Phase = PodFailed, Status_PodIP = ''10.0.0.3'', Spec_NodeName = ''n2''\<rparr>])])
     \<lparr>Pod_Name = ''w-0'', Pod_Namespace = ''ml'',
      Pod_Labels = Some [KueueWorkloadNameLabel \<mapsto> ''job''],
      Status_Phase = PodRunning, Status_PodIP = ''10.0.0.1'', Spec_NodeName = ''n1''\<rparr> \<and>
   Composite_DiscoverPeers
     (NewCompositeGangDiscoverer
        [\<lparr>Name = ''never'', CanHandle = (\<lambda>p. False), ExtractGangID = (\<lambda>p. []),
          DiscoverPeers = (\<lambda>(ctx::unit) p. (None, Some ''unused''))\<rparr>,
         KueueDiscoverer (\<lambda>ctx ns sel. Inr [\<lparr>Pod_Name = ''w-0'', Pod_Namespace = ''ml'',
      Pod_Labels = Some [KueueWorkloadNameLabel \<mapsto> ''job''],
      Status_Phase = PodRunning, Status_PodIP = ''10.0.0.1'', Spec_NodeName = ''n1''\<rparr>,
      \<lparr>Pod_Name = ''w-1'', Pod_Namespace = ''ml'',
      Pod_Labels = Some [KueueWorkloadNameLabel \<mapsto> ''job''],
      Status_Phase = PodFailed, Status_PodIP = ''10.0.0.3'', Spec_NodeName = ''n2''\<rparr>])])
     ()
     \<lparr>Pod_Name = ''w-0'', Pod_Namespace = ''ml'',
      Pod_Labels = Some [KueueWorkloadNameLabel \<mapsto> ''job''],
      Status_Phase = PodRunning, Status_PodIP = ''10.0.0.1'', Spec_NodeName = ''n1''\<rparr>
   = (Some \<lparr>GangID = ''kueue-ml-job'', ExpectedMinCount = 1,
             Peers = [\<lparr>PodName = ''w-0'', PodIP = ''10.0.0.1'', NodeName = ''n1'',
                       Namespace = ''ml''\<rparr>]\<rparr>, None) \<and>
   Composite_DiscoverPeers
     (NewCompositeGangDiscoverer
        [\<lparr>Name = ''never'', CanHandle = (\<lambda>p. False), ExtractGangID = (\<lambda>p. []),
          DiscoverPeers = (\<lambda>(ctx::unit) p. (None, Some ''unused''))\<rparr>,
         KueueDiscoverer (\<lambda>ctx ns sel. Inr [\<lparr>Pod_Name = ''w-0'', Pod_Namespace = ''ml'',
      Pod_Labels = Some [KueueWorkloadNameLabel \<mapsto> ''job''],
      Status_Phase = PodRunning, Status_PodIP = ''10.0.0.1'', Spec_NodeName = ''n1''\<rparr>,
      \<lparr>Pod_Name = ''w-1'', Pod_Namespace = ''ml'',
      Pod_Labels = Some [KueueWorkloadNameLabel \<mapsto> ''job''],
      Status_Phase = PodFailed, Status_PodIP = ''10.0.0.3'', Spec_NodeName = ''n2''\<rparr>])])
     ()
     \<lparr>Pod_Name = ''solo'', Pod_Namespace = ''ml'', Pod_Labels = None,
      Status_Phase = PodRunning, Status_PodIP = ''10.0.0.2'', Spec_NodeName = ''n1''\<rparr>
   = (None, None)"
proof -
  let ?c = "(NewCompositeGangDiscoverer
        [\<lparr>Name = ''never'', CanHandle = (\<lambda>p. False), ExtractGangID = (\<lambda>p. []),
          DiscoverPeers = (\<lambda>(ctx::unit) p. (None, Some ''unused''))\<rparr>,
         KueueDiscoverer (\<lambda>ctx ns sel. Inr [\<lparr>Pod_Name = ''w-0'', Pod_Namespace = ''ml'',
      Pod_Labels = Some [KueueWorkloadNameLabel \<mapsto> ''job''],
      Status_Phase = PodRunning, Status_PodIP = ''10.0.0.1'', Spec_NodeName = ''n1''\<rparr>,
      \<lparr>Pod_Name = ''w-1'', Pod_Namespace = ''ml'',
      Pod_Labels = Some [KueueWorkloadNameLabel \<mapsto> ''job''],
      Status_Phase = PodFailed, Status_PodIP = ''10.0.0.3'', Spec_NodeName = ''n2''\<rparr>])])"
  let ?p = "\<lparr>Pod_Name = ''w-0'', Pod_Namespace = ''ml'',
      Pod_Labels = Some [KueueWorkloadNameLabel \<mapsto> ''job''],
      Status_Phase = PodRunning, Status_PodIP = ''10.0.0.1'', Spec_NodeName = ''n1''\<rparr>"
  let ?q = "\<lparr>Pod_Name = ''solo'', Pod_Namespace = ''ml'', Pod_Labels = None,
      Status_Phase = PodRunning, Status_PodIP = ''10.0.0.2'', Spec_NodeName = ''n1''\<rparr>"
  have len: "1 < length (discoverers ?c)"
    by (simp add: NewCompositeGangDiscoverer_def)
  have first: "CanHandle (discoverers ?c ! 1) ?p \<and> (\<forall>j < 1. \<not> CanHandle (discoverers ?c ! j) ?p)"
    by (simp add: NewCompositeGangDiscoverer_def KueueDiscoverer_def Kueue_CanHandle_def)
  have none: "\<not> (\<exists>d \<in> set (discoverers ?c). CanHandle d ?q)"
    by (simp add: NewCompositeGangDiscoverer_def KueueDiscoverer_def Kueue_CanHandle_def)
  have ex: "\<exists>d \<in> set (discoverers ?c). CanHandle d ?p"
    by (simp add: NewCompositeGangDiscoverer_def KueueDiscoverer_def Kueue_CanHandle_def)
  have a: "Composite_CanHandle ?c ?p"
    using composite_first_match [of ?c ?p "()"] ex by blast
  have b: "Composite_DiscoverPeers ?c () ?p = DiscoverPeers (discoverers ?c ! 1) () ?p"
    using composite_first_match [of ?c ?p "()"] len first by blast
  have c: "Composite_DiscoverPeers ?c () ?q = (None, None)"
    using composite_first_match [of ?c ?q "()"] none by blast
  have d: "DiscoverPeers (discoverers ?c ! 1) () ?p
      = (Some \<lparr>GangID = ''kueue-ml-job'', ExpectedMinCount = 1,
             Peers = [\<lparr>PodName = ''w-0'', PodIP = ''10.0.0.1'', NodeName = ''n1'',
                       Namespace = ''ml''\<rparr>]\<rparr>, None)"
    by (simp add: NewCompositeGangDiscoverer_def KueueDiscoverer_def Kueue_DiscoverPeers_def
        Kueue_CanHandle_def Kueue_ExtractGangID_def labelOf_def KueueWorkloadNameLabel_def)
  show ?thesis using a b c d by simp
qed

section \<open>Properties of the in-memory object store\<close>

lemma lookup_written:
  "lookupKey (s\<lparr>items := AList.update key item (items s), revision := r, notified := n\<rparr>) key
     = Some item"
  by (simp add: lookupKey_def update_conv')

lemma lookup_deleted:
  "lookupKey (s\<lparr>items := AList.delete key (items s), revision := r, notified := n\<rparr>) key = None"
  by (simp add: lookupKey_def delete_conv')

text \<open>
  Claim C3. \<open>Create\<close> fails exactly when the key is present, and then with
  \<open>AlreadyExists\<close>; \<open>Get\<close> and \<open>Delete\<close> fail exactly when the key is absent, and then
  with \<open>NotFound\<close>; a \<open>Delete\<close> of a present key returns the value stored under it (with
  its revision), and the key is absent afterwards.
\<close>

theorem store_error_conditions:
  "(fst (Create key obj s) = Inl AlreadyExists) = (lookupKey s key \<noteq> None) \<and>
   (\<exists>e. fst (Create key obj s) = Inl e) = (lookupKey s key \<noteq> None) \<and>
   (Get key s = Inl NotFound) = (lookupKey s key = None) \<and>
   (\<exists>e. Get key s = Inl e) = (lookupKey s key = None) \<and>
   (fst (Delete key s) = Inl NotFound) = (lookupKey s key = None) \<and>
   (\<exists>e. fst (Delete key s) = Inl e) = (lookupKey s key = None) \<and>
   (\<forall>item. lookupKey s key = Some item \<longrightarrow>
      fst (Delete key s) = Inr item \<and> lookupKey (snd (Delete key s)) key = None)"
  by (auto simp: Create_def Get_def Delete_def Let_def lookup_deleted split: option.splits)

theorem store_error_conditions_witness:
  "fst (Create ''/gpus/default/gpu-0'' ''gpu-0'' NewStore) = Inr (''gpu-0'', 1) \<and>
   fst (Create ''/gpus/default/gpu-0'' ''gpu-0''
          (snd (Create ''/gpus/default/gpu-0'' ''gpu-0'' NewStore))) = Inl AlreadyExists \<and>
   Get ''/gpus/default/gpu-missing'' (NewStore :: string Store) = Inl NotFound \<and>
   fst (Delete ''/gpus/default/gpu-missing'' (NewStore :: string Store)) = Inl NotFound \<and>
   fst (Delete ''/gpus/default/gpu-0''
          (snd (Create ''/gpus/default/gpu-0'' ''gpu-0'' NewStore))) = Inr (''gpu-0'', 1) \<and>
   Get ''/gpus/default/gpu-0''
     (snd (Delete ''/gpus/default/gpu-0''
        (snd (Create ''/gpus/default/gpu-0'' ''gpu-0'' NewStore)))) = Inl NotFound"
proof -
  let ?s1 = "snd (Create ''/gpus/default/gpu-0'' ''gpu-0'' NewStore)"
  have l0: "lookupKey (NewStore :: string Store) ''/gpus/default/gpu-missing'' = None"
    by (simp add: lookupKey_def NewStore_def)
  have l1: "lookupKey ?s1 ''/gpus/default/gpu-0'' = Some (''gpu-0'', 1)"
    by (simp add: Create_def NewStore_def lookupKey_def)
  have c0: "fst (Create ''/gpus/default/gpu-0'' ''gpu-0'' NewStore) = Inr (''gpu-0'', 1)"
    by (simp add: Create_def NewStore_def lookupKey_def)
  show ?thesis
    using store_error_conditions [of "''/gpus/default/gpu-0''" "''gpu-0''" ?s1]
      store_error_conditions [of "''/gpus/default/gpu-missing''" "''gpu-0''" "NewStore :: string Store"]
      store_error_conditions [of "''/gpus/default/gpu-0''" "''gpu-0''"
        "snd (Delete ''/gpus/default/gpu-0'' ?s1)"]
      l0 l1 c0
    by simp
qed

subsection \<open>The revision counter\<close>

lemma serve_rev: "revision (serve s req) = (if isWrite s req then revision s + 1 else revision s)"
  by (cases req)
    (auto simp: Create_def GuaranteedUpdate_def Delete_def Let_def split: option.splits sum.splits)

lemma history_rev: "revision (foldl serve s reqs) = revision s + of_nat (countWrites s reqs)"
  by (induction reqs arbitrary: s) (simp_all add: serve_rev)

lemma delete_update_absent:
  "map_of al key = None \<Longrightarrow> AList.delete key (AList.update key v al) = al"
  by (induction al) (auto split: if_splits)

lemma create_delete:
  assumes "lookupKey s key = None"
  shows "items (serve (serve s (ReqCreate key obj)) (ReqDelete key)) = items s"
    and "revision (serve (serve s (ReqCreate key obj)) (ReqDelete key)) = revision s + 2"
  using assms
  by (simp_all add: Create_def Delete_def Let_def lookup_written delete_update_absent lookupKey_def
      update_conv')

lemma churn_history:
  assumes "lookupKey s key = None"
  shows "items (foldl serve s (churn key obj n)) = items s \<and>
         revision (foldl serve s (churn key obj n)) = revision s + of_nat (2 * n)"
  using assms
proof (induction n arbitrary: s)
  case 0
  show ?case by (simp add: churn_def)
next
  case (Suc n)
  let ?s2 = "serve (serve s (ReqCreate key obj)) (ReqDelete key)"
  have i: "items ?s2 = items s" and r: "revision ?s2 = revision s + 2"
    using create_delete [OF Suc.prems] by simp_all
  have "lookupKey ?s2 key = None" using i Suc.prems by (simp add: lookupKey_def)
  from Suc.IH [OF this] have
    "items (foldl serve ?s2 (churn key obj n)) = items s \<and>
     revision (foldl serve ?s2 (churn key obj n)) = revision s + 2 + of_nat (2 * n)"
    using i r by simp
  moreover have "foldl serve s (churn key obj (Suc n)) = foldl serve ?s2 (churn key obj n)"
    by (simp add: churn_def)
  ultimately show ?case by (simp add: algebra_simps)
qed

lemma word_succ_less:
  fixes x :: uint64
  assumes "x \<noteq> 18446744073709551615"
  shows "x < x + 1"
proof -
  have "unat x \<noteq> 18446744073709551615"
  proof
    assume "unat x = 18446744073709551615"
    then have "word_of_nat (unat x) = (word_of_nat 18446744073709551615 :: uint64)" by simp
    then show False using assms by simp
  qed
  moreover have "unat x < 2 ^ 64" using unsigned_less [of x, where 'a = nat] by simp
  ultimately have "unat x + 1 < 2 ^ 64" by simp
  then have "unat (x + 1) = unat x + 1"
    by (simp add: unat_word_ariths(1))
  then show ?thesis by (simp add: word_less_nat_alt)
qed

lemma unat_sum:
  fixes x :: uint64
  assumes "unat x + n < 2 ^ 64"
  shows "unat (x + of_nat n) = unat x + n"
  using assms by (simp add: unat_word_ariths(1) unat_of_nat)

text \<open>
  Claim C4, as stated, fails at the end of the counter's range. A fresh store that has
  served \<open>2^64 - 1\<close> writes (here a key created and deleted \<open>2^63 - 1\<close> times, and created
  once more) has the revision \<open>2^64 - 1\<close>. The next write, the \<open>Create\<close> of another key,
  wraps the counter to 0 and stamps the new object with 0: the counter has not
  increased.
\<close>

theorem revision_wraps_counterexample:
  "revision (foldl serve (NewStore :: string Store)
      (churn ''k'' ''v'' 9223372036854775807 @ [ReqCreate ''k'' ''v'']))
     = 18446744073709551615 \<and>
   isWrite (foldl serve (NewStore :: string Store)
      (churn ''k'' ''v'' 9223372036854775807 @ [ReqCreate ''k'' ''v''])) (ReqCreate ''j'' ''v'') \<and>
   fst (Create ''j'' ''v'' (foldl serve (NewStore :: string Store)
      (churn ''k'' ''v'' 9223372036854775807 @ [ReqCreate ''k'' ''v''])))
     = Inr (''v'', 0) \<and>
   revision (serve (foldl serve (NewStore :: string Store)
      (churn ''k'' ''v'' 9223372036854775807 @ [ReqCreate ''k'' ''v''])) (ReqCreate ''j'' ''v''))
     = 0 \<and>
   \<not> revision (foldl serve (NewStore :: string Store)
        (churn ''k'' ''v'' 9223372036854775807 @ [ReqCreate ''k'' ''v'']))
     < revision (serve (foldl serve (NewStore :: string Store)
        (churn ''k'' ''v'' 9223372036854775807 @ [ReqCreate ''k'' ''v''])) (ReqCreate ''j'' ''v''))"
proof -
  let ?c = "foldl serve (NewStore :: string Store) (churn ''k'' ''v'' 9223372036854775807)"
  let ?s = "foldl serve (NewStore :: string Store)
      (churn ''k'' ''v'' 9223372036854775807 @ [ReqCreate ''k'' ''v''])"
  have "lookupKey (NewStore :: string Store) ''k'' = None"
    by (simp add: lookupKey_def NewStore_def)
  from churn_history [OF this, of "''v''" 9223372036854775807]
  have ci: "items ?c = []" and cr: "revision ?c = 18446744073709551614"
    by (simp_all add: NewStore_def)
  have s: "?s = serve ?c (ReqCreate ''k'' ''v'')" by simp
  have ck: "lookupKey ?c ''k'' = None" using ci by (simp add: lookupKey_def)
  have si: "items ?s = [(''k'', (''v'', 18446744073709551615))]"
    unfolding s using ci cr ck by (simp add: Create_def Let_def)
  have sr: "revision ?s = 18446744073709551615"
    unfolding s using cr ck by (simp add: Create_def Let_def)
  have sj: "lookupKey ?s ''j'' = None" using si by (simp add: lookupKey_def)
  have a: "fst (Create ''j'' ''v'' ?s) = Inr (''v'', 0)"
    using sj sr by (simp add: Create_def Let_def)
  have b: "revision (serve ?s (ReqCreate ''j'' ''v'')) = 0"
    using sj sr by (simp add: Create_def Let_def)
  show ?thesis using sr sj a b by simp
qed

text \<open>
  Claim C4, amended. The revision counter of a fresh store is 0. Serving a request adds
  exactly one to the 8-byte counter, modulo \<open>2^64\<close>, when the request writes, and leaves
  it as it is otherwise. So a write strictly increases the counter unless the counter is
  \<open>2^64 - 1\<close> (then it wraps to 0), and over a history that does not take the counter
  beyond \<open>2^64 - 1\<close> the counter never decreases and grows by the number of writes. The
  first \<open>Create\<close> in a fresh store returns and stores the object with revision 1, and every
  successful \<open>Create\<close> and every writing \<open>GuaranteedUpdate\<close> returns and stores the
  object with the new value of the counter.
\<close>

theorem revision_counter:
  "revision (NewStore :: 'v Store) = 0 \<and> CurrentRevision (NewStore :: 'v Store) = 0 \<and>
   revision (serve s req) = (if isWrite s req then revision s + 1 else revision s) \<and>
   (isWrite s req \<and> revision s \<noteq> 18446744073709551615 \<longrightarrow> revision s < revision (serve s req)) \<and>
   revision (foldl serve s reqs) = revision s + of_nat (countWrites s reqs) \<and>
   (unat (revision s) + countWrites s reqs < 2 ^ 64 \<longrightarrow>
      revision s \<le> revision (foldl serve s reqs) \<and>
      unat (revision (foldl serve s reqs)) = unat (revision s) + countWrites s reqs) \<and>
   fst (Create key obj NewStore) = Inr (obj, 1) \<and>
   lookupKey (snd (Create key obj NewStore)) key = Some (obj, 1) \<and>
   (lookupKey s key = None \<longrightarrow>
      fst (Create key obj s) = Inr (obj, revision (snd (Create key obj s))) \<and>
      lookupKey (snd (Create key obj s)) key = Some (obj, revision (snd (Create key obj s)))) \<and>
   (isWrite s (ReqUpdate key mutator ign) \<longrightarrow>
      (\<exists>new. fst (GuaranteedUpdate key mutator ign s)
                = Inr (new, revision (snd (GuaranteedUpdate key mutator ign s))) \<and>
              lookupKey (snd (GuaranteedUpdate key mutator ign s)) key
                = Some (new, revision (snd (GuaranteedUpdate key mutator ign s)))))"
proof (intro conjI)
  show "revision (NewStore :: 'v Store) = 0" by (simp add: NewStore_def)
  show "CurrentRevision (NewStore :: 'v Store) = 0" by (simp add: NewStore_def CurrentRevision_def)
  show "revision (serve s req) = (if isWrite s req then revision s + 1 else revision s)"
    by (rule serve_rev)
  show "isWrite s req \<and> revision s \<noteq> 18446744073709551615 \<longrightarrow> revision s < revision (serve s req)"
    by (simp add: serve_rev word_succ_less)
  show "revision (foldl serve s reqs) = revision s + of_nat (countWrites s reqs)"
    by (rule history_rev)
  show "unat (revision s) + countWrites s reqs < 2 ^ 64 \<longrightarrow>
      revision s \<le> revision (foldl serve s reqs) \<and>
      unat (revision (foldl serve s reqs)) = unat (revision s) + countWrites s reqs"
    by (simp add: history_rev unat_sum word_le_nat_alt)
  show "fst (Create key obj NewStore) = Inr (obj, 1)"
    by (simp add: Create_def NewStore_def lookupKey_def)
  show "lookupKey (snd (Create key obj NewStore)) key = Some (obj, 1)"
    by (simp add: Create_def NewStore_def lookupKey_def)
  show "lookupKey s key = None \<longrightarrow>
      fst (Create key obj s) = Inr (obj, revision (snd (Create key obj s))) \<and>
      lookupKey (snd (Create key obj s)) key = Some (obj, revision (snd (Create key obj s)))"
    by (simp add: Create_def Let_def lookup_written)
  show "isWrite s (ReqUpdate key mutator ign) \<longrightarrow>
      (\<exists>new. fst (GuaranteedUpdate key mutator ign s)
                = Inr (new, revision (snd (GuaranteedUpdate key mutator ign s))) \<and>
              lookupKey (snd (GuaranteedUpdate key mutator ign s)) key
                = Some (new, revision (snd (GuaranteedUpdate key mutator ign s))))"
    by (auto simp: GuaranteedUpdate_def Let_def lookup_written split: option.splits sum.splits)
qed

theorem revision_counter_witness:
  "revision (foldl serve NewStore
          [ReqCreate ''/gpus/default/gpu-0'' ''gpu-0'',
           ReqCreate ''/gpus/default/gpu-1'' ''gpu-1'']) = 2 \<and>
   Get ''/gpus/default/gpu-0''
     (foldl serve NewStore
        [ReqCreate ''/gpus/default/gpu-0'' ''gpu-0'',
         ReqUpdate ''/gpus/default/gpu-0'' (\<lambda>cur rv. Inr ''gpu-0 test-key=test-value'') False])
     = Inr (''gpu-0 test-key=test-value'', 2)"
proof -
  let ?s1 = "snd (Create ''/gpus/default/gpu-0'' ''gpu-0'' NewStore)"
  let ?m = "\<lambda>(cur :: string option) (rv :: uint64).
              (Inr ''gpu-0 test-key=test-value'' :: StorageError + string)"
  have l1: "lookupKey ?s1 ''/gpus/default/gpu-0'' = Some (''gpu-0'', 1)"
    by (simp add: Create_def NewStore_def lookupKey_def)
  then have w: "isWrite ?s1 (ReqUpdate ''/gpus/default/gpu-0'' ?m False)" by simp
  have r1: "revision ?s1 = 1" by (simp add: Create_def NewStore_def lookupKey_def)
  have r2: "revision (serve ?s1 (ReqUpdate ''/gpus/default/gpu-0'' ?m False)) = 2"
    using revision_counter [of ?s1 "ReqUpdate ''/gpus/default/gpu-0'' ?m False" "[]"
        "''/gpus/default/gpu-0''" "''gpu-0''" ?m False, THEN conjunct2, THEN conjunct2,
        THEN conjunct1] w r1
    by (simp only: if_True) simp
  have cnt: "countWrites (NewStore :: string Store)
          [ReqCreate ''/gpus/default/gpu-0'' ''gpu-0'',
           ReqCreate ''/gpus/default/gpu-1'' ''gpu-1''] = 2"
    by (simp add: Create_def NewStore_def lookupKey_def)
  have a: "revision (foldl serve (NewStore :: string Store)
          [ReqCreate ''/gpus/default/gpu-0'' ''gpu-0'',
           ReqCreate ''/gpus/default/gpu-1'' ''gpu-1'']) = 2"
    using revision_counter [of "NewStore :: string Store" "ReqGet []"
        "[ReqCreate ''/gpus/default/gpu-0'' ''gpu-0'',
          ReqCreate ''/gpus/default/gpu-1'' ''gpu-1'']"
        "''/gpus/default/gpu-0''" "''gpu-0''" ?m False, THEN conjunct2, THEN conjunct2,
        THEN conjunct2, THEN conjunct2, THEN conjunct1]
    by (simp only: cnt) (simp add: NewStore_def)
  obtain new where n:
    "lookupKey (snd (GuaranteedUpdate ''/gpus/default/gpu-0'' ?m False ?s1)) ''/gpus/default/gpu-0''
       = Some (new, revision (snd (GuaranteedUpdate ''/gpus/default/gpu-0'' ?m False ?s1)))"
    using revision_counter [of ?s1 "ReqGet []" "[]" "''/gpus/default/gpu-0''" "''gpu-0''" ?m False,
        THEN conjunct2, THEN conjunct2, THEN conjunct2, THEN conjunct2, THEN conjunct2,
        THEN conjunct2, THEN conjunct2, THEN conjunct2, THEN conjunct2] w
    by blast
  have v: "new = ''gpu-0 test-key=test-value''"
    using n l1 by (simp add: GuaranteedUpdate_def Let_def lookup_written)
  have b: "Get ''/gpus/default/gpu-0''
     (foldl serve NewStore
        [ReqCreate ''/gpus/default/gpu-0'' ''gpu-0'',
         ReqUpdate ''/gpus/default/gpu-0'' ?m False])
     = Inr (''gpu-0 test-key=test-value'', 2)"
    using n v r2 by (simp add: Get_def)
  show ?thesis using a b by simp
qed

subsection \<open>Optimistic updates\<close>



























section \<open>Properties of the HealthEvent lifecycle\<close>

lemma allowed_rank: "allowedTransition p q \<Longrightarrow> phaseRank p < phaseRank q"
  by (cases p) auto

lemma phaseStep_refl [simp]: "phaseStep p p"
  by (simp add: phaseStep_def)

lemma applyStatus_phase_eq:
  "phase (event (applyStatus w q c now)) =
     (if q = phase (event w) \<or> allowedTransition (phase (event w)) q then q else phase (event w))"
  by (cases c) (auto simp: applyStatus_def updateStatus_def)

lemma applyStatus_phaseStep:
  "phase (event w0) = p \<Longrightarrow> phaseStep p (phase (event (applyStatus w0 q c now)))"
  by (auto simp: applyStatus_phase_eq phaseStep_def)

lemma applyStatus_conditions:
  "q = phase (event w) \<or> allowedTransition (phase (event w)) q \<Longrightarrow>
   conditions (event (applyStatus w q (t, st, r) now)) = setCondition (conditions (event w)) t st r now"
  by (auto simp: applyStatus_def updateStatus_def)

lemma applyStatus_rejected:
  "\<not> (q = phase (event w) \<or> allowedTransition (phase (event w)) q) \<Longrightarrow>
   applyStatus w q c now = w"
  by (cases c) (auto simp: applyStatus_def updateStatus_def)

lemma applyStatus_specFields: "specFields (event (applyStatus w q c now)) = specFields (event w)"
  by (cases c) (auto simp: applyStatus_def updateStatus_def specFields_def)

lemma applyStatus_rest:
  "rebootNodes (applyStatus w q c now) = rebootNodes w"
  "eventDeleted (applyStatus w q c now) = eventDeleted w"
  by (cases c; auto simp: applyStatus_def updateStatus_def)+

lemmas controller_defs =
  quarantineReconcile_def drainReconcile_def remediationReconcile_def executorReport_def
  healthySignal_def duplicateSignal_def ttlReconcile_def Let_def

lemma perform_phaseStep: "phaseStep (phase (event w)) (phase (event (perform op w)))"
proof (cases op)
  case (QuarantineReconcile nodeFound now)
  then show ?thesis
    by (auto simp: quarantineReconcile_def Let_def intro!: applyStatus_phaseStep)
next
  case (DrainReconcile evictable blocked now)
  then show ?thesis
    by (auto simp: drainReconcile_def Let_def intro!: applyStatus_phaseStep)
next
  case (RemediationReconcile now)
  then show ?thesis
    by (auto simp: remediationReconcile_def Let_def intro!: applyStatus_phaseStep
        split: option.splits RebootPhase.splits)
next
  case (ExecutorReport ph)
  then show ?thesis by (simp add: executorReport_def)
next
  case (HealthySignal now)
  then show ?thesis by (auto simp: healthySignal_def intro!: applyStatus_phaseStep)
next
  case (DuplicateSignal codes now)
  then show ?thesis by (simp add: duplicateSignal_def)
next
  case (TTLReconcile ttl now)
  then show ?thesis by (auto simp: ttlReconcile_def Let_def split: option.splits)
next
  case (ManualStatusUpdate p t st r now)
  then show ?thesis by (auto intro!: applyStatus_phaseStep)
qed

lemma step_phaseStep: "phaseStep (phase (event w)) (phase (event (step w op)))"
  using perform_phaseStep [of w op] by (simp add: step_def)

lemma step_rank: "phaseRank (phase (event w)) \<le> phaseRank (phase (event (step w op)))"
  using step_phaseStep [of w op] allowed_rank [of "phase (event w)" "phase (event (step w op))"]
  by (auto simp: phaseStep_def)

lemma run_rank: "phaseRank (phase (event w)) \<le> phaseRank (phase (event (run w ops)))"
  unfolding run_def
proof (induction ops arbitrary: w)
  case Nil
  show ?case by simp
next
  case (Cons op ops)
  have "phaseRank (phase (event w)) \<le> phaseRank (phase (event (step w op)))"
    by (rule step_rank)
  also have "\<dots> \<le> phaseRank (phase (event (foldl step (step w op) ops)))"
    by (rule Cons.IH)
  finally show ?case by simp
qed

lemma rank_resolved: "phaseRank p = 5 \<longleftrightarrow> p = PhaseResolved"
  by (cases p) auto

lemma rank_le_5: "phaseRank p \<le> 5"
  by (cases p) auto

lemma run_resolved:
  assumes "phase (event w) = PhaseResolved"
  shows "phase (event (run w ops)) = PhaseResolved"
proof -
  have "5 \<le> phaseRank (phase (event (run w ops)))"
    using run_rank [of w ops] assms by simp
  then have "phaseRank (phase (event (run w ops))) = 5"
    using rank_le_5 [of "phase (event (run w ops))"] by simp
  then show ?thesis by (simp add: rank_resolved)
qed

lemma resolved_by_healthy_signal:
  assumes "\<not> isManual op" "\<not> isHealthySignal op"
    "phase (event (step w op)) = PhaseResolved"
  shows "phase (event w) = PhaseResolved"
  using assms
  by (cases op)
    (auto simp: step_def controller_defs applyStatus_phase_eq
      split: option.splits if_splits RebootPhase.splits)

text \<open>
  Claim C1. Every operation of a history (a controller's reconcile, the executor's
  report, a signal of the publisher, a deletion by TTL, a status update by any other
  writer) leaves the phase of the event as it is or moves it along an edge of the graph
  of section 4.9. Every edge leads forward in the order "" / New, Quarantined, Draining,
  Drained, Remediated, Resolved; an edge that does not end in \<open>Resolved\<close> stays within
  the first five, and every phase but \<open>Resolved\<close> has an edge to \<open>Resolved\<close>, which has
  no edge out. Among the operations of the controllers, the executor and the publisher,
  only the publisher's healthy signal moves an event to \<open>Resolved\<close>. So over every
  history the phase never moves backward, and a resolved event stays resolved.
\<close>

theorem phase_never_regresses:
  "phaseStep (phase (event w)) (phase (event (step w op))) \<and>
   (allowedTransition p q \<longrightarrow> phaseRank p < phaseRank q) \<and>
   (allowedTransition p q \<and> q \<noteq> PhaseResolved \<longrightarrow> phaseRank q \<le> 4) \<and>
   allowedTransition p PhaseResolved = (p \<noteq> PhaseResolved) \<and>
   \<not> allowedTransition PhaseResolved q \<and>
   (\<not> isManual op \<and> \<not> isHealthySignal op \<and> phase (event (step w op)) = PhaseResolved \<longrightarrow>
      phase (event w) = PhaseResolved) \<and>
   phaseRank (phase (event w)) \<le> phaseRank (phase (event (run w ops))) \<and>
   (phase (event w) = PhaseResolved \<longrightarrow> phase (event (run w ops)) = PhaseResolved)"
proof (intro conjI)
  show "phaseStep (phase (event w)) (phase (event (step w op)))" by (rule step_phaseStep)
  show "allowedTransition p q \<longrightarrow> phaseRank p < phaseRank q" by (simp add: allowed_rank)
  show "allowedTransition p q \<and> q \<noteq> PhaseResolved \<longrightarrow> phaseRank q \<le> 4"
    by (cases q) auto
  show "allowedTransition p PhaseResolved = (p \<noteq> PhaseResolved)" by (cases p) auto
  show "\<not> allowedTransition PhaseResolved q" by simp
  show "\<not> isManual op \<and> \<not> isHealthySignal op \<and> phase (event (step w op)) = PhaseResolved \<longrightarrow>
      phase (event w) = PhaseResolved"
    using resolved_by_healthy_signal [of op w] by blast
  show "phaseRank (phase (event w)) \<le> phaseRank (phase (event (run w ops)))" by (rule run_rank)
  show "phase (event w) = PhaseResolved \<longrightarrow> phase (event (run w ops)) = PhaseResolved"
    by (simp add: run_resolved)
qed

theorem phase_never_regresses_witness:
  "map (\<lambda>ops. phase (event (run
       \<lparr>event = \<lparr>eventName = ''gpu-xid-79'', uid = ''u1'', source = ''e2e-test'',
          nodeName = ''n1'', componentClass = ''GPU'', checkName = ''GpuXidError'',
          isFatal = True, isHealthy = False, errorCodes = [''79''],
          recommendedAction = ActionRestartVM, overrides = None, detectedAt = 0,
          message = ''XID error occurred'', phase = PhaseEmpty, conditions = [],
          resolvedAt = None, lastUpdated = 0\<rparr>,
        eventDeleted = False, nodeUnschedulable = False, cordonAnnotation = False,
        rebootNodes = []\<rparr> ops)))
     [[],
      [QuarantineReconcile True 1],
      [QuarantineReconcile True 1, DrainReconcile 2 False 2],
      [QuarantineReconcile True 1, DrainReconcile 2 False 2, DrainReconcile 0 False 3],
      [QuarantineReconcile True 1, DrainReconcile 2 False 2, DrainReconcile 0 False 3,
       RemediationReconcile 4, ExecutorReport RebootCompleted, RemediationReconcile 5],
      [QuarantineReconcile True 1, DrainReconcile 2 False 2, DrainReconcile 0 False 3,
       RemediationReconcile 4, ExecutorReport RebootCompleted, RemediationReconcile 5,
       HealthySignal 6],
      [QuarantineReconcile True 1, DrainReconcile 2 False 2, DrainReconcile 0 False 3,
       RemediationReconcile 4, ExecutorReport RebootCompleted, RemediationReconcile 5,
       HealthySignal 6, ManualStatusUpdate PhaseDrained CondPodsDrained ConditionTrue [] 7,
       QuarantineReconcile True 8]]
   = [PhaseEmpty, PhaseQuarantined, PhaseDraining, PhaseDrained, PhaseRemediated,
      PhaseResolved, PhaseResolved]"
proof -
  let ?w = "\<lparr>event = \<lparr>eventName = ''gpu-xid-79'', uid = ''u1'', source = ''e2e-test'',
          nodeName = ''n1'', componentClass = ''GPU'', checkName = ''GpuXidError'',
          isFatal = True, isHealthy = False, errorCodes = [''79''],
          recommendedAction = ActionRestartVM, overrides = None, detectedAt = 0,
          message = ''XID error occurred'', phase = PhaseEmpty, conditions = [],
          resolvedAt = None, lastUpdated = 0\<rparr>,
        eventDeleted = False, nodeUnschedulable = False, cordonAnnotation = False,
        rebootNodes = []\<rparr>"
  let ?ops = "[QuarantineReconcile True 1, DrainReconcile 2 False 2, DrainReconcile 0 False 3,
       RemediationReconcile 4, ExecutorReport RebootCompleted, RemediationReconcile 5,
       HealthySignal 6]"
  have r: "phase (event (run ?w ?ops)) = PhaseResolved"
    by (simp add: run_def step_def controller_defs applyStatus_def updateStatus_def
        overrideSet_def remediationSkipped_def findRebootNode_def rebootNodeNameFor_def)
  have "phase (event (run (run ?w ?ops)
          [ManualStatusUpdate PhaseDrained CondPodsDrained ConditionTrue [] 7,
           QuarantineReconcile True 8])) = PhaseResolved"
    using phase_never_regresses [of "run ?w ?ops" _ _ _
        "[ManualStatusUpdate PhaseDrained CondPodsDrained ConditionTrue [] 7,
          QuarantineReconcile True 8]"] r
    by blast
  then have last: "phase (event (run ?w (?ops @
          [ManualStatusUpdate PhaseDrained CondPodsDrained ConditionTrue [] 7,
           QuarantineReconcile True 8]))) = PhaseResolved"
    by (simp add: run_def)
  show ?thesis
    using last r
    by (simp add: run_def step_def controller_defs applyStatus_def updateStatus_def
        overrideSet_def remediationSkipped_def findRebootNode_def rebootNodeNameFor_def)
qed

lemma findCondition_set_same:
  "\<exists>c. findCondition (setCondition cs t st r now) t = Some c \<and> condStatus c = st \<and> condReason c = r"
  by (induction cs) auto

lemma findCondition_set_other:
  "t' \<noteq> t \<Longrightarrow> findCondition (setCondition cs t' st r now) t = findCondition cs t"
  by (induction cs) auto

lemma perform_specFields: "specFields (event (perform op w)) = specFields (event w)"
  by (cases op)
    (simp_all add: controller_defs applyStatus_specFields specFields_def [of "_\<lparr>errorCodes := _, lastUpdated := _\<rparr>"]
      specFields_def [of "event w"]
      split: option.splits RebootPhase.splits)

lemma skipped_specFields:
  "specFields e' = specFields e \<Longrightarrow> remediationSkipped e' = remediationSkipped e"
  by (simp add: specFields_def remediationSkipped_def overrideSet_def)

lemma perform_rebootNodes:
  assumes "remediationSkipped (event w)"
  shows "map rebootNodeName (rebootNodes (perform op w)) = map rebootNodeName (rebootNodes w)"
  using assms
  by (cases op)
    (simp_all add: controller_defs applyStatus_rest comp_def if_distrib
      split: option.splits)

lemma perform_not_remediated:
  assumes "remediationSkipped (event w)" "\<not> isManual op" "phase (event w) \<noteq> PhaseRemediated"
  shows "phase (event (perform op w)) \<noteq> PhaseRemediated"
  using assms
  by (cases op) (auto simp: controller_defs applyStatus_phase_eq split: option.splits if_splits)

lemma perform_drained:
  assumes "remediationSkipped (event w)" "\<not> isManual op"
    "phase (event w) = PhaseDrained \<or> phase (event w) = PhaseResolved"
  shows "phase (event (perform op w)) = PhaseDrained \<or> phase (event (perform op w)) = PhaseResolved"
  using assms
  by (cases op) (auto simp: controller_defs applyStatus_phase_eq split: option.splits if_splits)

lemma perform_stays_drained:
  assumes "remediationSkipped (event w)" "\<not> isManual op" "\<not> isHealthySignal op"
    "phase (event w) = PhaseDrained"
  shows "phase (event (perform op w)) = PhaseDrained"
  using assms
  by (cases op) (auto simp: controller_defs applyStatus_phase_eq split: option.splits if_splits)

lemma hasCondition_applyStatus_other:
  "t \<noteq> CondRemediated \<Longrightarrow>
   hasCondition (event (applyStatus w q (t, st, r) now)) CondRemediated st' r' =
   hasCondition (event w) CondRemediated st' r'"
  by (cases "q = phase (event w) \<or> allowedTransition (phase (event w)) q")
    (simp_all add: hasCondition_def applyStatus_conditions applyStatus_rejected
      findCondition_set_other)

lemma hasCondition_applyStatus_same:
  "q = phase (event w) \<Longrightarrow> hasCondition (event (applyStatus w q (t, st, r) now)) t st r"
  using findCondition_set_same [of "conditions (event w)" t st r now]
  by (auto simp: hasCondition_def applyStatus_conditions)

lemma perform_skipped_condition:
  assumes "remediationSkipped (event w)" "\<not> isManual op"
    "hasCondition (event w) CondRemediated ConditionFalse ''Skipped''"
  shows "hasCondition (event (perform op w)) CondRemediated ConditionFalse ''Skipped''"
proof (cases op)
  case (RemediationReconcile now)
  then show ?thesis
    using assms
      hasCondition_applyStatus_same [of PhaseDrained w CondRemediated ConditionFalse "''Skipped''" now]
    by (auto simp: remediationReconcile_def Let_def)
next
  case (ManualStatusUpdate p t st r now)
  then show ?thesis using assms by simp
next
  case (QuarantineReconcile nodeFound now)
  then show ?thesis
    using assms by (auto simp: quarantineReconcile_def Let_def hasCondition_applyStatus_other)
next
  case (DrainReconcile evictable blocked now)
  then show ?thesis
    using assms by (auto simp: drainReconcile_def Let_def hasCondition_applyStatus_other)
next
  case (ExecutorReport ph)
  then show ?thesis using assms by (simp add: executorReport_def)
next
  case (HealthySignal now)
  then show ?thesis
    using assms by (auto simp: healthySignal_def hasCondition_applyStatus_other)
next
  case (DuplicateSignal codes now)
  then show ?thesis using assms by (simp add: duplicateSignal_def hasCondition_def)
next
  case (TTLReconcile ttl now)
  then show ?thesis using assms by (simp add: ttlReconcile_def Let_def split: option.splits)
qed

lemma remediation_sets_skipped:
  assumes "remediationSkipped (event w)" "phase (event w) = PhaseDrained"
  shows "phase (event (perform (RemediationReconcile now) w)) = PhaseDrained \<and>
         hasCondition (event (perform (RemediationReconcile now) w))
           CondRemediated ConditionFalse ''Skipped'' \<and>
         rebootNodes (perform (RemediationReconcile now) w) = rebootNodes w"
  using assms
    hasCondition_applyStatus_same [of PhaseDrained w CondRemediated ConditionFalse "''Skipped''" now]
  by (simp add: remediationReconcile_def applyStatus_phase_eq applyStatus_rest)

lemma step_skipInvariant:
  assumes "skipInvariant w healthy w'" "\<not> isManual op" "isHealthySignal op \<Longrightarrow> healthy"
  shows "skipInvariant w healthy (step w' op)"
proof (cases "eventDeleted w'")
  case True
  then show ?thesis using assms by (simp add: step_def)
next
  case False
  have sk: "remediationSkipped (event w')" using assms by (simp add: skipInvariant_def)
  have "remediationSkipped (event (perform op w'))"
    using sk skipped_specFields [OF perform_specFields [of op w']] by simp
  moreover have "map rebootNodeName (rebootNodes (perform op w')) = map rebootNodeName (rebootNodes w)"
    using perform_rebootNodes [OF sk, of op] assms(1) by (simp add: skipInvariant_def)
  moreover have "phase (event (perform op w')) \<noteq> PhaseRemediated"
    using perform_not_remediated [OF sk assms(2)] assms(1) by (simp add: skipInvariant_def)
  moreover have "phase (event w) = PhaseDrained \<Longrightarrow>
      phase (event (perform op w')) = PhaseDrained \<or>
      (healthy \<and> phase (event (perform op w')) = PhaseResolved)"
  proof -
    assume d: "phase (event w) = PhaseDrained"
    then have c: "phase (event w') = PhaseDrained \<or> (healthy \<and> phase (event w') = PhaseResolved)"
      using assms(1) by (simp add: skipInvariant_def)
    show ?thesis
    proof (cases healthy)
      case True
      then show ?thesis using perform_drained [OF sk assms(2)] c by auto
    next
      case False
      then have "\<not> isHealthySignal op" using assms(3) by auto
      then show ?thesis using perform_stays_drained [OF sk assms(2)] c False by auto
    qed
  qed
  moreover have "hasCondition (event w) CondRemediated ConditionFalse ''Skipped'' \<Longrightarrow>
      hasCondition (event (perform op w')) CondRemediated ConditionFalse ''Skipped''"
    using perform_skipped_condition [OF sk assms(2)] assms(1) by (simp add: skipInvariant_def)
  ultimately show ?thesis using False by (simp add: step_def skipInvariant_def)
qed

lemma run_skipInvariant:
  assumes "skipInvariant w healthy w'" "list_all (\<lambda>op. \<not> isManual op) ops"
    "list_ex isHealthySignal ops \<Longrightarrow> healthy"
  shows "skipInvariant w healthy (run w' ops)"
  using assms unfolding run_def
proof (induction ops arbitrary: w')
  case Nil
  then show ?case by simp
next
  case (Cons op ops)
  have "skipInvariant w healthy (step w' op)"
    using Cons.prems by (intro step_skipInvariant) auto
  then show ?case using Cons.IH [of "step w' op"] Cons.prems by simp
qed

lemma skipInvariant_start:
  "remediationSkipped (event w) \<Longrightarrow> phase (event w) \<noteq> PhaseRemediated \<Longrightarrow> skipInvariant w healthy w"
  by (simp add: skipInvariant_def)

text \<open>
  Claim C6. Take an event whose recommended action is \<open>NoAction\<close> or \<open>ContactSupport\<close>, or
  whose overrides set \<open>remediation.skip\<close>, that is not yet \<open>Remediated\<close>, and any history of
  controller reconciles, executor reports, publisher signals and TTL reconciles (no
  manual status update). Then no RebootNode record is created, and the phase never becomes
  \<open>Remediated\<close>. Once the event is \<open>Drained\<close> it stays \<open>Drained\<close> until a healthy signal
  resolves it, and the remediation controller's reconcile sets the condition
  \<open>Remediated=False\<close> with reason \<open>Skipped\<close> without changing the phase; the condition
  then stays.
\<close>

theorem skipped_remediation_stays_drained:
  assumes "remediationSkipped (event w)"
    and "phase (event w) \<noteq> PhaseRemediated"
    and "list_all (\<lambda>op. \<not> isManual op) ops"
  shows "map rebootNodeName (rebootNodes (run w ops)) = map rebootNodeName (rebootNodes w) \<and>
         length (rebootNodes (run w ops)) = length (rebootNodes w) \<and>
         phase (event (run w ops)) \<noteq> PhaseRemediated \<and>
         (phase (event w) = PhaseDrained \<longrightarrow>
            phase (event (run w ops)) = PhaseDrained \<or>
            (list_ex isHealthySignal ops \<and> phase (event (run w ops)) = PhaseResolved)) \<and>
         (phase (event w) = PhaseDrained \<and> \<not> eventDeleted w \<longrightarrow>
            phase (event (step w (RemediationReconcile now))) = PhaseDrained \<and>
            hasCondition (event (step w (RemediationReconcile now)))
              CondRemediated ConditionFalse ''Skipped'' \<and>
            hasCondition (event (run (step w (RemediationReconcile now)) ops))
              CondRemediated ConditionFalse ''Skipped'')"
proof -
  have inv: "skipInvariant w (list_ex isHealthySignal ops) (run w ops)"
    using assms by (intro run_skipInvariant skipInvariant_start) auto
  then have names: "map rebootNodeName (rebootNodes (run w ops)) = map rebootNodeName (rebootNodes w)"
    by (simp add: skipInvariant_def)
  have len: "length (rebootNodes (run w ops)) = length (rebootNodes w)"
    using arg_cong [OF names, of length] by simp
  have cond: "hasCondition (event (run (step w (RemediationReconcile now)) ops))
              CondRemediated ConditionFalse ''Skipped''"
    if d: "phase (event w) = PhaseDrained" and nd: "\<not> eventDeleted w"
  proof -
    let ?w1 = "step w (RemediationReconcile now)"
    have s1: "phase (event ?w1) = PhaseDrained"
      "hasCondition (event ?w1) CondRemediated ConditionFalse ''Skipped''"
      using remediation_sets_skipped [OF assms(1) d, of now] nd by (simp_all add: step_def)
    have "remediationSkipped (event ?w1)"
      using skipped_specFields [OF perform_specFields [of "RemediationReconcile now" w]] assms(1) nd
      by (simp add: step_def)
    then have "skipInvariant ?w1 True (run ?w1 ops)"
      using s1 assms(3) by (intro run_skipInvariant skipInvariant_start) auto
    then show ?thesis using s1 by (simp add: skipInvariant_def)
  qed
  show ?thesis
    using inv names len cond remediation_sets_skipped [OF assms(1), of now]
    by (auto simp: skipInvariant_def step_def)
qed

theorem skipped_remediation_stays_drained_witness:
  "phase (event (run
       \<lparr>event = \<lparr>eventName = ''gpu-xid-145'', uid = ''u2'', source = ''e2e-test'',
          nodeName = ''n1'', componentClass = ''GPU'', checkName = ''GpuXidError'',
          isFatal = True, isHealthy = False, errorCodes = [''145''],
          recommendedAction = ActionContactSupport, overrides = None, detectedAt = 0,
          message = [], phase = PhaseEmpty, conditions = [],
          resolvedAt = None, lastUpdated = 0\<rparr>,
        eventDeleted = False, nodeUnschedulable = False, cordonAnnotation = False,
        rebootNodes = []\<rparr>
       [QuarantineReconcile True 1, DrainReconcile 2 False 2, DrainReconcile 0 False 3,
        RemediationReconcile 4, ExecutorReport RebootCompleted, RemediationReconcile 5]))
     = PhaseDrained \<and>
   rebootNodes (run
       \<lparr>event = \<lparr>eventName = ''gpu-xid-145'', uid = ''u2'', source = ''e2e-test'',
          nodeName = ''n1'', componentClass = ''GPU'', checkName = ''GpuXidError'',
          isFatal = True, isHealthy = False, errorCodes = [''145''],
          recommendedAction = ActionContactSupport, overrides = None, detectedAt = 0,
          message = [], phase = PhaseEmpty, conditions = [],
          resolvedAt = None, lastUpdated = 0\<rparr>,
        eventDeleted = False, nodeUnschedulable = False, cordonAnnotation = False,
        rebootNodes = []\<rparr>
       [QuarantineReconcile True 1, DrainReconcile 2 False 2, DrainReconcile 0 False 3,
        RemediationReconcile 4, ExecutorReport RebootCompleted, RemediationReconcile 5])
     = []"
proof -
  let ?w = "\<lparr>event = \<lparr>eventName = ''gpu-xid-145'', uid = ''u2'', source = ''e2e-test'',
          nodeName = ''n1'', componentClass = ''GPU'', checkName = ''GpuXidError'',
          isFatal = True, isHealthy = False, errorCodes = [''145''],
          recommendedAction = ActionContactSupport, overrides = None, detectedAt = 0,
          message = [], phase = PhaseEmpty, conditions = [],
          resolvedAt = None, lastUpdated = 0\<rparr>,
        eventDeleted = False, nodeUnschedulable = False, cordonAnnotation = False,
        rebootNodes = []\<rparr>"
  let ?pre = "[QuarantineReconcile True 1, DrainReconcile 2 False 2, DrainReconcile 0 False 3]"
  let ?post = "[RemediationReconcile 4, ExecutorReport RebootCompleted, RemediationReconcile 5]"
  have sk: "remediationSkipped (event ?w)" by (simp add: remediationSkipped_def)
  have d: "phase (event (run ?w ?pre)) = PhaseDrained"
    by (simp add: run_def step_def controller_defs applyStatus_def updateStatus_def
        overrideSet_def)
  have sk1: "remediationSkipped (event (run ?w ?pre))"
    by (simp add: run_def step_def controller_defs applyStatus_def updateStatus_def
        overrideSet_def remediationSkipped_def)
  have nm: "list_all (\<lambda>op. \<not> isManual op) ?post" by simp
  have nh: "\<not> list_ex isHealthySignal ?post" by simp
  have a: "phase (event (run (run ?w ?pre) ?post)) = PhaseDrained"
    using skipped_remediation_stays_drained [OF sk1 _ nm] d nh by simp
  have nm2: "list_all (\<lambda>op. \<not> isManual op) (?pre @ ?post)" by simp
  have "length (rebootNodes (run ?w (?pre @ ?post))) = length (rebootNodes ?w)"
    using skipped_remediation_stays_drained [OF sk _ nm2] by simp
  then have b: "rebootNodes (run ?w (?pre @ ?post)) = []" by simp
  have "run (run ?w ?pre) ?post = run ?w (?pre @ ?post)" by (simp add: run_def)
  then show ?thesis using a b by simp
qed

end
